theory Spec2Isabelle
  imports Main "HOL-Library.Sublist"
begin

section \<open>The prompt logger of copilot-prompt-logger (src/logger.ts, class CopilotLogger)\<close>

text \<open>
  The class \<^verbatim>\<open>CopilotLogger\<close> (the version with the recent-prompts cache) is embedded
  as functions over an explicit state. A JavaScript string is a \<open>string\<close>: one
  \<open>char\<close> per UTF-16 code unit, for code units below 256, so \<open>length\<close> is
  \<^verbatim>\<open>String.prototype.length\<close>. Diagnostic output (console, output channel, status bar,
  error pop-ups) is not part of the state.
\<close>

subsection \<open>String primitives of the host language\<close>

text \<open>White space and line terminators of ECMAScript that lie below code unit 256:
  TAB, LF, VT, FF, CR, SP and NBSP. This is what \<^verbatim>\<open>trim\<close> strips and what \<^verbatim>\<open>\s\<close> matches.\<close>

definition isWhiteSpace :: "char \<Rightarrow> bool" where
  "isWhiteSpace c = (c \<in> set [CHR 0x09, CHR 0x0A, CHR 0x0B, CHR 0x0C, CHR 0x0D, CHR 0x20, CHR 0xA0])"

definition trimStart :: "string \<Rightarrow> string" where
  "trimStart s = dropWhile isWhiteSpace s"

definition trimEnd :: "string \<Rightarrow> string" where
  "trimEnd s = rev (dropWhile isWhiteSpace (rev s))"

definition trim :: "string \<Rightarrow> string" where
  "trim s = trimEnd (trimStart s)"

text \<open>\<^verbatim>\<open>toLowerCase\<close> on code units below 256: A-Z, and the Latin-1 capitals
  U+00C0..U+00DE without the multiplication sign U+00D7, move up by 32.\<close>

definition toLowerCaseChar :: "char \<Rightarrow> char" where
  "toLowerCaseChar c =
     (let n = (of_char c :: nat)
      in if (65 \<le> n \<and> n \<le> 90) \<or> (192 \<le> n \<and> n \<le> 222 \<and> n \<noteq> 215)
         then char_of (n + 32) else c)"

definition toLowerCase :: "string \<Rightarrow> string" where
  "toLowerCase s = map toLowerCaseChar s"

definition startsWith :: "string \<Rightarrow> string \<Rightarrow> bool" where
  "startsWith s pat = prefix pat s"

text \<open>\<^verbatim>\<open>s.includes(pat)\<close>: \<open>pat\<close> occurs in \<open>s\<close> as a contiguous substring.\<close>

fun includesStr :: "string \<Rightarrow> string \<Rightarrow> bool" where
  "includesStr [] pat = (pat = [])"
| "includesStr (c # cs) pat = (prefix pat (c # cs) \<or> includesStr cs pat)"

subsection \<open>The file system and the clock\<close>

text \<open>
  The part of the world the logger touches: the directories and files that exist, how
  many of the next calls of each \<^verbatim>\<open>fs\<close> operation throw, and a timeline of append
  attempts and of the waits between them.
\<close>

datatype error = MkdirFailed | WriteFailed | AppendFailed | ReadFailed | RetriesExhausted nat

datatype io_event = TriedAppend string bool | Slept nat

record world =
  dirs :: "string set"
  files :: "string \<rightharpoonup> string"
  mkdirFails :: nat
  writeFails :: nat
  appendFails :: nat
  readFails :: nat
  timeline :: "io_event list"

definition existsSync :: "string \<Rightarrow> world \<Rightarrow> bool" where
  "existsSync p w = (p \<in> dirs w \<or> files w p \<noteq> None)"

definition mkdirSync :: "string \<Rightarrow> world \<Rightarrow> (error + unit) \<times> world" where
  "mkdirSync p w =
     (if 0 < mkdirFails w then (Inl MkdirFailed, w\<lparr>mkdirFails := mkdirFails w - 1\<rparr>)
      else (Inr (), w\<lparr>dirs := insert p (dirs w)\<rparr>))"

definition writeFileSync :: "string \<Rightarrow> string \<Rightarrow> world \<Rightarrow> (error + unit) \<times> world" where
  "writeFileSync p c w =
     (if 0 < writeFails w then (Inl WriteFailed, w\<lparr>writeFails := writeFails w - 1\<rparr>)
      else (Inr (), w\<lparr>files := (files w)(p \<mapsto> c)\<rparr>))"

definition appendFileSync :: "string \<Rightarrow> string \<Rightarrow> world \<Rightarrow> (error + unit) \<times> world" where
  "appendFileSync p c w =
     (if 0 < appendFails w
      then (Inl AppendFailed,
            w\<lparr>appendFails := appendFails w - 1, timeline := timeline w @ [TriedAppend p False]\<rparr>)
      else (Inr (),
            w\<lparr>files := (files w)(p \<mapsto> (case files w p of None \<Rightarrow> c | Some old \<Rightarrow> old @ c)),
              timeline := timeline w @ [TriedAppend p True]\<rparr>))"

definition readFileSync :: "string \<Rightarrow> world \<Rightarrow> (error + string) \<times> world" where
  "readFileSync p w =
     (if 0 < readFails w then (Inl ReadFailed, w\<lparr>readFails := readFails w - 1\<rparr>)
      else (case files w p of None \<Rightarrow> (Inl ReadFailed, w) | Some c \<Rightarrow> (Inr c, w)))"

definition sleep :: "nat \<Rightarrow> world \<Rightarrow> world" where
  "sleep ms w = w\<lparr>timeline := timeline w @ [Slept ms]\<rparr>"

text \<open>Paths, POSIX style: \<^verbatim>\<open>path.join\<close> of a directory and a name with no separators
  or dots to resolve (a separator that ends the directory is not doubled),
  \<^verbatim>\<open>path.basename\<close> (separators that end the path are skipped) and \<^verbatim>\<open>path.dirname\<close>
  of a path that contains a separator and does not end in one.
  \<^verbatim>\<open>mkdirSync\<close> is the recursive one: it succeeds on a directory that exists.
  A write or an append that the real file system refuses (a directory at the path, a
  regular file above it, no permission, a full disk) is one of the failures counted by
  \<open>writeFails\<close> and \<open>appendFails\<close>.\<close>

definition pathJoin :: "string \<Rightarrow> string \<Rightarrow> string" where
  "pathJoin a b = (if a \<noteq> [] \<and> last a = CHR ''/'' then a @ b else a @ ''/'' @ b)"

definition basename :: "string \<Rightarrow> string" where
  "basename p =
     rev (takeWhile (\<lambda>c. c \<noteq> CHR ''/'') (dropWhile (\<lambda>c. c = CHR ''/'') (rev p)))"

definition dirname :: "string \<Rightarrow> string" where
  "dirname p = rev (drop 1 (dropWhile (\<lambda>c. c \<noteq> CHR ''/'') (rev p)))"

subsection \<open>Configuration and host values read by the logger\<close>

record host =
  enabled :: bool
  captureMode :: string
  includeContext :: bool
  timestamp :: string
  dateString :: string
  localeDate :: string
  workspaceRoot :: "string option"
  homedir :: string
  envHome :: "string option"
  asRelativePath :: "string \<Rightarrow> string"

subsection \<open>The duplicate filter\<close>

definition MAX_RECENT_PROMPTS :: nat where
  "MAX_RECENT_PROMPTS = 20"

text \<open>\<^verbatim>\<open>unshift\<close> followed by the bounded \<^verbatim>\<open>pop\<close>, as both \<^verbatim>\<open>rememberPrompt\<close> and
  \<^verbatim>\<open>logUserInput\<close> do it.\<close>

definition unshiftBounded :: "string \<Rightarrow> string list \<Rightarrow> string list" where
  "unshiftBounded x recent =
     (let recent' = x # recent
      in if length recent' > MAX_RECENT_PROMPTS then butlast recent' else recent')"

definition rememberPrompt :: "string \<Rightarrow> string list \<Rightarrow> string list" where
  "rememberPrompt promptText recent =
     (let normalized = toLowerCase (trim promptText) in unshiftBounded normalized recent)"

definition isDuplicate :: "string \<Rightarrow> string list \<Rightarrow> bool" where
  "isDuplicate promptText recent =
     (let normalized = toLowerCase (trim promptText) in normalized \<in> set recent)"

text \<open>A sequence of remember operations, oldest first.\<close>

fun rememberAll :: "string list \<Rightarrow> string list \<Rightarrow> string list" where
  "rememberAll [] recent = recent"
| "rememberAll (p # ps) recent = rememberAll ps (rememberPrompt p recent)"

subsection \<open>Global regular-expression replacement\<close>

text \<open>
  \<^verbatim>\<open>s.replace(/re/g, r)\<close> scans from the left; where the expression matches, the
  match is replaced and the scan resumes behind it, elsewhere one code unit is copied.
  A matcher is the expression tried at the head of the remaining input: it gives the
  replacement text and the length of the match. Every expression of \<^verbatim>\<open>cleanupPrompt\<close>
  matches at least three code units.
\<close>

type_synonym matcher = "string \<Rightarrow> (string \<times> nat) option"

fun replaceAll :: "matcher \<Rightarrow> string \<Rightarrow> string" where
  "replaceAll m [] = []"
| "replaceAll m (c # cs) =
     (case m (c # cs) of
        Some (r, n) \<Rightarrow> r @ replaceAll m (drop (n - 1) cs)
      | None \<Rightarrow> c # replaceAll m cs)"

definition isWordChar :: "char \<Rightarrow> bool" where
  "isWordChar c =
     (let n = (of_char c :: nat)
      in (48 \<le> n \<and> n \<le> 57) \<or> (65 \<le> n \<and> n \<le> 90) \<or> (97 \<le> n \<and> n \<le> 122) \<or> n = 95)"

definition isDigit :: "char \<Rightarrow> bool" where
  "isDigit c = (let n = (of_char c :: nat) in 48 \<le> n \<and> n \<le> 57)"

text \<open>The dot of a regular expression matches everything but a line terminator.\<close>

definition isLineTerminator :: "char \<Rightarrow> bool" where
  "isLineTerminator c = (c = CHR 0x0A \<or> c = CHR 0x0D)"

fun indexOf :: "string \<Rightarrow> string \<Rightarrow> nat option" where
  "indexOf [] pat = (if pat = [] then Some 0 else None)"
| "indexOf (c # cs) pat =
     (if prefix pat (c # cs) then Some 0 else map_option Suc (indexOf cs pat))"

text \<open>\<^verbatim>\<open>/```[\w]*\n([\s\S]*?)```/g\<close> replaced by \<^verbatim>\<open>$1\<close>: an opening fence, word
  characters, a line feed, then the shortest text up to the next fence, which is kept.\<close>

definition fenceMatch :: matcher where
  "fenceMatch s =
     (if prefix ''```'' s
      then (let afterFence = drop 3 s;
                lang = takeWhile isWordChar afterFence
            in (case dropWhile isWordChar afterFence of
                  [] \<Rightarrow> None
                | c # body \<Rightarrow>
                    (if c = CHR 0x0A
                     then (case indexOf body ''```'' of
                             None \<Rightarrow> None
                           | Some k \<Rightarrow> Some (take k body, 3 + length lang + 1 + k + 3))
                     else None)))
      else None)"

text \<open>\<^verbatim>\<open>/start.*mid.*$/gm\<close> replaced by the empty string (with \<open>mid\<close> empty this is
  \<^verbatim>\<open>/start.*$/gm\<close>): from \<open>start\<close> to the end of the line, when \<open>mid\<close> occurs there.\<close>

definition lineTailMatch :: "string \<Rightarrow> string \<Rightarrow> matcher" where
  "lineTailMatch start mid s =
     (if prefix start s
      then (let rest = takeWhile (\<lambda>c. \<not> isLineTerminator c) (drop (length start) s)
            in if includesStr rest mid then Some ([], length start + length rest) else None)
      else None)"

text \<open>\<^verbatim>\<open>/---+/g\<close>: a run of three or more dashes.\<close>

definition dashMatch :: matcher where
  "dashMatch s =
     (if prefix ''---'' s then Some ([], length (takeWhile (\<lambda>c. c = CHR ''-'') s)) else None)"

text \<open>A fixed-width template: \<open>d\<close> stands for \<^verbatim>\<open>\d\<close>, every other character for itself.\<close>

fun matchTemplate :: "string \<Rightarrow> string \<Rightarrow> bool" where
  "matchTemplate [] s = True"
| "matchTemplate (t # ts) [] = False"
| "matchTemplate (t # ts) (c # cs) =
     ((if t = CHR ''d'' then isDigit c else c = t) \<and> matchTemplate ts cs)"

text \<open>\<^verbatim>\<open>/\d{4}-\d{2}-\d{2} \d{2}:\d{2}:\d{2}/g\<close>.\<close>

definition timestampMatch :: matcher where
  "timestampMatch s = (if matchTemplate ''dddd-dd-dd dd:dd:dd'' s then Some ([], 19) else None)"

subsection \<open>cleanupPrompt\<close>

definition patternsToRemove :: "matcher list" where
  "patternsToRemove =
     [lineTailMatch ''# GitHub Copilot Prompts Log'' [],
      lineTailMatch ''## Session Started:'' [],
      lineTailMatch ''## Session Ended:'' [],
      lineTailMatch ''### '' ''Prompt at'',
      lineTailMatch ''#### Context'' [],
      lineTailMatch ''#### Input'' [],
      lineTailMatch ''Source:'' [],
      lineTailMatch ''File:'' [],
      dashMatch,
      timestampMatch]"

text \<open>\<^verbatim>\<open>s.split('\n')\<close> and \<^verbatim>\<open>lines.join('\n')\<close>.\<close>

function splitLines :: "string \<Rightarrow> string list" where
  "splitLines s =
     (takeWhile (\<lambda>c. c \<noteq> CHR 0x0A) s #
      (case dropWhile (\<lambda>c. c \<noteq> CHR 0x0A) s of [] \<Rightarrow> [] | c # rest \<Rightarrow> splitLines rest))"
  by pat_completeness auto
termination
proof (relation "measure length")
  show "wf (measure length)" by simp
next
  fix s :: string and c rest
  assume "dropWhile (\<lambda>c. c \<noteq> CHR 0x0A) s = c # rest"
  then have "length (c # rest) \<le> length s"
    by (metis length_dropWhile_le)
  then show "(rest, s) \<in> measure length" by simp
qed

declare splitLines.simps [simp del]

fun joinLines :: "string list \<Rightarrow> string" where
  "joinLines [] = []"
| "joinLines [l] = l"
| "joinLines (l # ls) = l @ CHR 0x0A # joinLines ls"

definition dropBlankLines :: "string \<Rightarrow> string" where
  "dropBlankLines cleaned =
     (let lines = filter (\<lambda>line. trim line \<noteq> []) (splitLines cleaned)
      in trim (joinLines lines))"

definition cleanupPrompt :: "string \<Rightarrow> string" where
  "cleanupPrompt promptText =
     (if promptText = [] then []
      else (let cleaned = replaceAll fenceMatch promptText;
                cleaned = fold replaceAll patternsToRemove cleaned
            in dropBlankLines cleaned))"

subsection \<open>Classification\<close>

definition isSystemMessage :: "string \<Rightarrow> bool" where
  "isSystemMessage text =
     (includesStr text ''Session Started'' \<or>
      includesStr text ''Session Ended'' \<or>
      includesStr text ''Prompt at'' \<or>
      startsWith text ''system:'')"

definition responsePatterns :: "string list" where
  "responsePatterns =
     [''Updated content goes here'',
      ''The content has been further updated'',
      ''Additional content has been added'',
      ''This ensures that all necessary details'',
      ''Key takeaways and actionable insights'',
      ''Further enhancements have been made'',
      ''Here is the implementation'']"

definition looksLikeResponse :: "string \<Rightarrow> bool" where
  "looksLikeResponse text =
     (if list_ex (\<lambda>pattern. includesStr text pattern) responsePatterns then True
      else (let isTooLong = (length text > 100);
                looksLikeComplete =
                  ((startsWith text ''The'' \<and> includesStr text ''.'') \<or>
                   (startsWith text ''This'' \<and> includesStr text ''.'') \<or>
                   (startsWith text ''Updates'' \<and> includesStr text ''.''));
                containsCodeBlocks =
                  (includesStr text ''```'' \<or>
                   (includesStr text ''{'' \<and> includesStr text ''}'' \<and> includesStr text '';''));
                containsExplanatory =
                  (includesStr text ''function'' \<or> includesStr text ''class'' \<or>
                   includesStr text ''method'' \<or> includesStr text ''implements'')
            in (isTooLong \<and> looksLikeComplete) \<or>
               (isTooLong \<and> containsCodeBlocks \<and> containsExplanatory)))"

definition shouldIncludeContext :: "host \<Rightarrow> string \<Rightarrow> string \<Rightarrow> bool" where
  "shouldIncludeContext h context promptText =
     (context \<noteq> [] \<and> trim context \<noteq> [] \<and> context \<noteq> promptText \<and>
      \<not> includesStr context ''User Input'' \<and> includeContext h)"

definition truncateIfNeeded :: "string \<Rightarrow> nat \<Rightarrow> string" where
  "truncateIfNeeded text maxLength =
     (if length text \<le> maxLength then text else take maxLength text @ ''... [truncated]'')"

subsection \<open>The log writer\<close>

text \<open>The loop of \<^verbatim>\<open>appendWithRetry\<close>, from attempt number \<open>attempt\<close> on.\<close>

function appendWithRetryFrom ::
  "nat \<Rightarrow> string \<Rightarrow> string \<Rightarrow> nat \<Rightarrow> nat \<Rightarrow> world \<Rightarrow> (error + unit) \<times> world" where
  "appendWithRetryFrom attempt filepath content maxRetries delay w =
     (if attempt \<le> maxRetries
      then (case appendFileSync filepath content w of
              (Inr u, w') \<Rightarrow> (Inr (), w')
            | (Inl e, w') \<Rightarrow>
                (if attempt < maxRetries
                 then appendWithRetryFrom (attempt + 1) filepath content maxRetries delay
                        (sleep delay w')
                 else appendWithRetryFrom (attempt + 1) filepath content maxRetries delay w'))
      else (Inl (RetriesExhausted maxRetries), w))"
  by pat_completeness auto
termination
  by (relation "measure (\<lambda>(attempt, filepath, content, maxRetries, delay, w). maxRetries + 1 - attempt)")
     auto

definition appendWithRetry ::
  "string \<Rightarrow> string \<Rightarrow> nat \<Rightarrow> nat \<Rightarrow> world \<Rightarrow> (error + unit) \<times> world" where
  "appendWithRetry filepath content maxRetries delay w =
     appendWithRetryFrom 0 filepath content maxRetries delay w"

definition logFileName :: "host \<Rightarrow> string" where
  "logFileName h = ''prompt-log-'' @ dateString h @ ''.md''"

text \<open>The workspace branch of \<^verbatim>\<open>getLogFilePath\<close>; its exceptions are caught there, so
  it gives a path or nothing.\<close>

definition workspaceLogFilePath :: "host \<Rightarrow> world \<Rightarrow> string option \<times> world" where
  "workspaceLogFilePath h w =
     (case workspaceRoot h of
        None \<Rightarrow> (None, w)
      | Some rootPath \<Rightarrow>
          (let folderPath = pathJoin rootPath ''copilot-prompts''
           in if \<not> existsSync folderPath w
              then (case mkdirSync folderPath w of
                      (Inl e, w') \<Rightarrow> (None, w')
                    | (Inr u, w') \<Rightarrow> (Some (pathJoin folderPath (logFileName h)), w'))
              else (Some (pathJoin folderPath (logFileName h)), w)))"

definition getLogFilePath :: "host \<Rightarrow> world \<Rightarrow> (error + string) \<times> world" where
  "getLogFilePath h w =
     (case workspaceLogFilePath h w of
        (Some p, w') \<Rightarrow> (Inr p, w')
      | (None, w') \<Rightarrow>
          (let folderPath = pathJoin (homedir h) ''.vscode-copilot-logs''
           in if \<not> existsSync folderPath w'
              then (case mkdirSync folderPath w' of
                      (Inl e, w'') \<Rightarrow> (Inl e, w'')
                    | (Inr u, w'') \<Rightarrow> (Inr (pathJoin folderPath (logFileName h)), w''))
              else (Inr (pathJoin folderPath (logFileName h)), w')))"

definition logHeader :: "host \<Rightarrow> string" where
  "logHeader h =
     ''# GitHub Copilot Prompts Log - '' @ localeDate h @
     ''\<newline>This file contains logs of prompts sent to GitHub Copilot.\<newline>\<newline>''"

text \<open>The directory step of \<^verbatim>\<open>initLogFile\<close>: \<open>Inr None\<close> to go on with the file,
  \<open>Inr (Some p)\<close> for the early return of the alternative location.\<close>

definition initLogDirectory ::
  "host \<Rightarrow> string \<Rightarrow> world \<Rightarrow> (error + string option) \<times> world" where
  "initLogDirectory h logFilePath w =
     (let dirPath = dirname logFilePath
      in if \<not> existsSync dirPath w
         then (case mkdirSync dirPath w of
                 (Inr u, w') \<Rightarrow> (Inr None, w')
               | (Inl dirError, w') \<Rightarrow>
                   (case envHome h of
                      Some homeDir \<Rightarrow>
                        (let altDir = pathJoin (pathJoin homeDir ''.vscode'') ''copilot-prompts''
                         in (case mkdirSync altDir w' of
                               (Inl e, w'') \<Rightarrow> (Inl e, w'')
                             | (Inr u, w'') \<Rightarrow>
                                 (Inr (Some (pathJoin altDir (basename logFilePath))), w'')))
                    | None \<Rightarrow> (Inl dirError, w')))
         else (Inr None, w))"

definition initLogFile :: "host \<Rightarrow> world \<Rightarrow> (error + string) \<times> world" where
  "initLogFile h w =
     (case getLogFilePath h w of
        (Inl e, w1) \<Rightarrow> (Inl e, w1)
      | (Inr logFilePath, w1) \<Rightarrow>
          (case initLogDirectory h logFilePath w1 of
             (Inl e, w2) \<Rightarrow> (Inl e, w2)
           | (Inr (Some alternative), w2) \<Rightarrow> (Inr alternative, w2)
           | (Inr None, w2) \<Rightarrow>
               (if \<not> existsSync logFilePath w2
                then (case writeFileSync logFilePath (logHeader h) w2 of
                        (Inl e, w3) \<Rightarrow> (Inl e, w3)
                      | (Inr u, w3) \<Rightarrow> (Inr logFilePath, w3))
                else (Inr logFilePath, w2))))"

text \<open>The fallback of \<^verbatim>\<open>appendToLog\<close>: read the whole file, write it back with the new
  content behind it. An exception here is caught by the outer handler.\<close>

definition rewriteWithContent :: "string \<Rightarrow> string \<Rightarrow> world \<Rightarrow> world" where
  "rewriteWithContent logFilePath content w =
     (case (if existsSync logFilePath w then readFileSync logFilePath w else (Inr [], w)) of
        (Inl e, w') \<Rightarrow> w'
      | (Inr currentContent, w') \<Rightarrow> snd (writeFileSync logFilePath (currentContent @ content) w'))"

definition appendToLog :: "host \<Rightarrow> string \<Rightarrow> world \<Rightarrow> world" where
  "appendToLog h content w =
     (if \<not> enabled h then w
      else if content = [] \<or> trim content = [] then w
      else (case initLogFile h w of
              (Inl e, w1) \<Rightarrow> w1
            | (Inr logFilePath, w1) \<Rightarrow>
                (case appendWithRetry logFilePath content 3 100 w1 of
                   (Inr u, w2) \<Rightarrow> w2
                 | (Inl appendError, w2) \<Rightarrow> rewriteWithContent logFilePath content w2)))"

subsection \<open>The logging entry points\<close>

record logger =
  recentPrompts :: "string list"
  disk :: world

text \<open>The entry that \<^verbatim>\<open>logPrompt\<close> formats for an accepted prompt.\<close>

definition promptEntry :: "host \<Rightarrow> string \<Rightarrow> string \<Rightarrow> string \<Rightarrow> string" where
  "promptEntry h fileName context cleanPrompt =
     ''\<newline>### User Prompt at '' @ timestamp h @ ''\<newline>\<newline>'' @
     ''Source: '' @ asRelativePath h fileName @ ''\<newline>\<newline>'' @
     (if shouldIncludeContext h context cleanPrompt
      then ''#### Context\<newline>\<newline>```\<newline>'' @ truncateIfNeeded context 500 @
           ''\<newline>```\<newline>\<newline>''
      else []) @
     ''#### Input\<newline>\<newline>```\<newline>'' @ cleanPrompt @ ''\<newline>```\<newline>\<newline>'' @
     ''---\<newline>''"

definition logPrompt :: "host \<Rightarrow> string \<Rightarrow> string \<Rightarrow> string \<Rightarrow> logger \<Rightarrow> logger" where
  "logPrompt h fileName context promptText st =
     (if promptText = [] \<or> trim promptText = [] then st
      else if isDuplicate promptText (recentPrompts st) then st
      else (let cleanPrompt = cleanupPrompt promptText
            in if cleanPrompt = [] \<or> trim cleanPrompt = [] \<or> isSystemMessage cleanPrompt then st
               else if captureMode h = ''userInputOnly'' \<and> looksLikeResponse cleanPrompt then st
               else \<lparr>recentPrompts = rememberPrompt cleanPrompt (recentPrompts st),
                     disk = appendToLog h (promptEntry h fileName context cleanPrompt) (disk st)\<rparr>))"

text \<open>The entry that \<^verbatim>\<open>logUserInput\<close> formats.\<close>

definition userInputEntry :: "host \<Rightarrow> string \<Rightarrow> string \<Rightarrow> string" where
  "userInputEntry h fileName promptText =
     (let source = (if fileName = ''Copilot Chat'' then ''Copilot Chat'' else basename fileName)
      in ''\<newline>### User Prompt at '' @ timestamp h @ ''\<newline>\<newline>'' @
         ''Source: '' @ source @ ''\<newline>\<newline>'' @
         ''```\<newline>'' @ promptText @ ''\<newline>```\<newline>\<newline>'' @
         ''---\<newline>'')"

definition logUserInput :: "host \<Rightarrow> string \<Rightarrow> string \<Rightarrow> logger \<Rightarrow> logger" where
  "logUserInput h fileName promptText0 st =
     (if promptText0 = [] \<or> trim promptText0 = [] then st
      else (let promptText = trim promptText0
            in if isDuplicate promptText (recentPrompts st) then st
               else \<lparr>recentPrompts = unshiftBounded promptText (recentPrompts st),
                     disk = appendToLog h (userInputEntry h fileName promptText) (disk st)\<rparr>))"

definition chatMessageEntry :: "host \<Rightarrow> string \<Rightarrow> string" where
  "chatMessageEntry h message =
     ''\<newline>### Chat Message at '' @ timestamp h @ ''\<newline>\<newline>'' @
     ''```\<newline>'' @ message @ ''\<newline>```\<newline>\<newline>'' @
     ''---\<newline>''"

definition logChatMessage :: "host \<Rightarrow> string \<Rightarrow> logger \<Rightarrow> logger" where
  "logChatMessage h message st =
     (if message = [] \<or> trim message = [] then st
      else if isDuplicate message (recentPrompts st) then st
      else \<lparr>recentPrompts = rememberPrompt message (recentPrompts st),
            disk = appendToLog h (chatMessageEntry h message) (disk st)\<rparr>)"

subsection \<open>Sequences of calls\<close>

datatype call =
  LogPrompt host string string string
| LogUserInput host string string
| LogChatMessage host string

fun perform :: "call \<Rightarrow> logger \<Rightarrow> logger" where
  "perform (LogPrompt h fileName context promptText) st = logPrompt h fileName context promptText st"
| "perform (LogUserInput h fileName promptText) st = logUserInput h fileName promptText st"
| "perform (LogChatMessage h message) st = logChatMessage h message st"

definition freshLogger :: "world \<Rightarrow> logger" where
  "freshLogger w = \<lparr>recentPrompts = [], disk = w\<rparr>"

text \<open>Twenty-five prompts, pairwise distinct, oldest first.\<close>

definition twentyFivePrompts :: "string list" where
  "twentyFivePrompts =
     [''p01'', ''p02'', ''p03'', ''p04'', ''p05'', ''p06'', ''p07'', ''p08'', ''p09'', ''p10'',
      ''p11'', ''p12'', ''p13'', ''p14'', ''p15'', ''p16'', ''p17'', ''p18'', ''p19'', ''p20'',
      ''p21'', ''p22'', ''p23'', ''p24'', ''p25'']"

text \<open>A host with logging enabled and a workspace open, and a disk with nothing on it
  and no failures pending.\<close>

definition exampleHost :: host where
  "exampleHost =
     \<lparr>enabled = True, captureMode = ''userInputOnly'', includeContext = True,
      timestamp = ''2025-01-01 10:00:00'', dateString = ''2025-01-01'',
      localeDate = ''1/1/2025'', workspaceRoot = Some ''/ws'', homedir = ''/home/u'',
      envHome = Some ''/home/u'', asRelativePath = (\<lambda>p. p)\<rparr>"

definition emptyWorld :: world where
  "emptyWorld =
     \<lparr>dirs = {}, files = Map.empty, mkdirFails = 0, writeFails = 0, appendFails = 0,
      readFails = 0, timeline = []\<rparr>"

text \<open>What a file holds; nothing when it does not exist.\<close>

definition fileContent :: "world \<Rightarrow> string \<Rightarrow> string" where
  "fileContent w p = (case files w p of None \<Rightarrow> [] | Some c \<Rightarrow> c)"

text \<open>The timeline of an append that fails on each of its four attempts.\<close>

definition fourFailedAttempts :: "string \<Rightarrow> io_event list" where
  "fourFailedAttempts p =
     [TriedAppend p False, Slept 100, TriedAppend p False, Slept 100,
      TriedAppend p False, Slept 100, TriedAppend p False]"

text \<open>The log file of \<open>exampleHost\<close>, and a disk on which it exists with its header.\<close>

definition examplePath :: string where
  "examplePath = ''/ws/copilot-prompts/prompt-log-2025-01-01.md''"

definition preparedWorld :: world where
  "preparedWorld =
     emptyWorld\<lparr>dirs := {''/ws/copilot-prompts''},
                files := [examplePath \<mapsto> logHeader exampleHost]\<rparr>"

text \<open>The text of the capture-mode example.\<close>

definition responseLikeText :: string where
  "responseLikeText = ''Here is the implementation of the function you requested.''"

text \<open>A disk on which the log file exists, the next four appends fail and so does the
  next write: the retries and the rewrite fallback all fail.\<close>

definition failingWorld :: world where
  "failingWorld = preparedWorld\<lparr>appendFails := 4, writeFails := 1\<rparr>"

text \<open>A text in which no expression of \<^verbatim>\<open>cleanupPrompt\<close> matches at any position.\<close>

definition artifactFree :: "string \<Rightarrow> bool" where
  "artifactFree t = list_all (\<lambda>u. list_all (\<lambda>m. m u = None) (fenceMatch # patternsToRemove)) (suffixes t)"

text \<open>A prompt with a code fence, surrounding blanks and log artifacts.\<close>

definition noisyPrompt :: string where
  "noisyPrompt =
     ''```ts\<newline>let x = 1;\<newline>```\<newline>\<newline>  hi  \<newline>Source: a.ts\<newline>### User Prompt at noon''"

text \<open>No line of the text is blank.\<close>

definition noBlankLine :: "string \<Rightarrow> bool" where
  "noBlankLine s = (\<forall>l \<in> set (splitLines s). trim l \<noteq> [])"

section \<open>Properties\<close>

subsection \<open>The recent-prompt history is bounded\<close>

lemma unshiftBounded_take:
  "length recent \<le> MAX_RECENT_PROMPTS \<Longrightarrow>
   unshiftBounded x recent = take MAX_RECENT_PROMPTS (x # recent)"
  by (cases "length recent = MAX_RECENT_PROMPTS")
     (auto simp: unshiftBounded_def Let_def butlast_conv_take)

lemma unshiftBounded_length:
  "length recent \<le> MAX_RECENT_PROMPTS \<Longrightarrow>
   length (unshiftBounded x recent) \<le> MAX_RECENT_PROMPTS"
  by (simp add: unshiftBounded_take)

lemma rememberPrompt_length:
  "length recent \<le> MAX_RECENT_PROMPTS \<Longrightarrow>
   length (rememberPrompt p recent) \<le> MAX_RECENT_PROMPTS"
  by (simp add: rememberPrompt_def Let_def unshiftBounded_length)

lemma perform_length:
  "length (recentPrompts st) \<le> MAX_RECENT_PROMPTS \<Longrightarrow>
   length (recentPrompts (perform c st)) \<le> MAX_RECENT_PROMPTS"
  by (cases c)
     (simp_all add: logPrompt_def logUserInput_def logChatMessage_def Let_def
        rememberPrompt_length unshiftBounded_length)

lemma fold_perform_length:
  "length (recentPrompts st) \<le> MAX_RECENT_PROMPTS \<Longrightarrow>
   length (recentPrompts (fold perform calls st)) \<le> MAX_RECENT_PROMPTS"
  by (induction calls arbitrary: st) (simp_all add: perform_length)

lemma rememberAll_take:
  "length recent \<le> MAX_RECENT_PROMPTS \<Longrightarrow>
   rememberAll ps recent =
     take MAX_RECENT_PROMPTS (rev (map (\<lambda>p. toLowerCase (trim p)) ps) @ recent)"
proof (induction ps arbitrary: recent)
  case Nil
  then show ?case by simp
next
  case (Cons p ps)
  let ?n = "\<lambda>p. toLowerCase (trim p)"
  have step: "rememberPrompt p recent = take MAX_RECENT_PROMPTS (?n p # recent)"
    using Cons.prems by (simp add: rememberPrompt_def Let_def unshiftBounded_take)
  have "rememberAll (p # ps) recent =
        take MAX_RECENT_PROMPTS (rev (map ?n ps) @ take MAX_RECENT_PROMPTS (?n p # recent))"
    using Cons.IH [of "rememberPrompt p recent"] Cons.prems step
    by (simp add: rememberPrompt_length)
  also have "\<dots> = take MAX_RECENT_PROMPTS (rev (map ?n ps) @ ?n p # recent)"
    by (simp add: take_add min_def)
  finally show ?case by simp
qed

text \<open>
  Claim C3. The history never holds more than 20 entries: not after any sequence of
  calls of the three logging entry points on a fresh logger, and not after any sequence
  of remember operations. Remembering inserts at the front and evicts at the back, so
  the history is the 20 most recent normalised prompts, newest first. After 25 prompts
  with pairwise distinct normal forms it is exactly the 20 most recent ones, and none of
  the 5 oldest is flagged as a duplicate any more.
\<close>

theorem history_bounded:
  "length (recentPrompts (fold perform calls (freshLogger w))) \<le> MAX_RECENT_PROMPTS \<and>
   length (rememberAll ps []) \<le> 20 \<and>
   rememberAll ps [] = take 20 (rev (map (\<lambda>p. toLowerCase (trim p)) ps)) \<and>
   (length ps = 25 \<and> distinct (map (\<lambda>p. toLowerCase (trim p)) ps) \<longrightarrow>
      rememberAll ps [] = rev (map (\<lambda>p. toLowerCase (trim p)) (drop 5 ps)) \<and>
      (\<forall>p \<in> set (take 5 ps). \<not> isDuplicate p (rememberAll ps [])))"
proof -
  let ?n = "\<lambda>p. toLowerCase (trim p)"
  have a: "length (recentPrompts (fold perform calls (freshLogger w))) \<le> MAX_RECENT_PROMPTS"
    by (rule fold_perform_length) (simp add: freshLogger_def)
  have b: "rememberAll ps [] = take 20 (rev (map ?n ps))"
    using rememberAll_take [of "[]" ps] by (simp add: MAX_RECENT_PROMPTS_def)
  have c: "length (rememberAll ps []) \<le> 20"
    by (simp add: b)
  have d: "rememberAll ps [] = rev (map ?n (drop 5 ps)) \<and>
           (\<forall>p \<in> set (take 5 ps). \<not> isDuplicate p (rememberAll ps []))"
    if len: "length ps = 25" and dist: "distinct (map ?n ps)"
  proof -
    have e: "rememberAll ps [] = rev (map ?n (drop 5 ps))"
      using len by (simp add: b take_rev drop_map)
    have "distinct (map ?n (take 5 ps) @ map ?n (drop 5 ps))"
      using dist by (metis append_take_drop_id map_append)
    then have "set (map ?n (take 5 ps)) \<inter> set (map ?n (drop 5 ps)) = {}"
      by simp
    then have "\<forall>p \<in> set (take 5 ps). ?n p \<notin> set (rev (map ?n (drop 5 ps)))"
      by auto
    then show ?thesis
      by (simp add: e isDuplicate_def Let_def)
  qed
  from a b c d show ?thesis by blast
qed

theorem history_bounded_witness:
  "length twentyFivePrompts = 25 \<and>
   distinct (map (\<lambda>p. toLowerCase (trim p)) twentyFivePrompts) \<and>
   rememberAll twentyFivePrompts [] =
     rev (map (\<lambda>p. toLowerCase (trim p)) (drop 5 twentyFivePrompts)) \<and>
   \<not> isDuplicate ''p01'' (rememberAll twentyFivePrompts []) \<and>
   \<not> isDuplicate ''p05'' (rememberAll twentyFivePrompts []) \<and>
   isDuplicate ''p06'' (rememberAll twentyFivePrompts [])"
proof -
  have len: "length twentyFivePrompts = 25"
    by code_simp
  have dist: "distinct (map (\<lambda>p. toLowerCase (trim p)) twentyFivePrompts)"
    by code_simp
  have old: "''p01'' \<in> set (take 5 twentyFivePrompts)" "''p05'' \<in> set (take 5 twentyFivePrompts)"
    by code_simp+
  have dup: "isDuplicate ''p06'' (rememberAll twentyFivePrompts [])"
    by code_simp
  show ?thesis
    using history_bounded [of "[]" emptyWorld twentyFivePrompts] len dist old dup by blast
qed

subsection \<open>Blank text, and what the log writer does with an entry\<close>

lemma trim_eq_Nil_iff: "trim s = [] \<longleftrightarrow> (\<forall>c \<in> set s. isWhiteSpace c)"
proof
  assume "trim s = []"
  then have "dropWhile isWhiteSpace (rev (dropWhile isWhiteSpace s)) = []"
    by (simp add: trim_def trimEnd_def trimStart_def)
  then have all: "\<forall>c \<in> set (dropWhile isWhiteSpace s). isWhiteSpace c"
    by (simp add: dropWhile_eq_Nil_conv)
  have "dropWhile isWhiteSpace s = []"
  proof (rule ccontr)
    assume ne: "dropWhile isWhiteSpace s \<noteq> []"
    then have "\<not> isWhiteSpace (hd (dropWhile isWhiteSpace s))"
      by (rule hd_dropWhile)
    with all ne show False by simp
  qed
  then show "\<forall>c \<in> set s. isWhiteSpace c"
    by (simp add: dropWhile_eq_Nil_conv)
next
  assume "\<forall>c \<in> set s. isWhiteSpace c"
  then show "trim s = []"
    by (auto simp: trim_def trimEnd_def trimStart_def dest: set_dropWhileD)
qed

lemma trim_nonempty: "c \<in> set s \<Longrightarrow> \<not> isWhiteSpace c \<Longrightarrow> trim s \<noteq> []"
  by (auto simp: trim_eq_Nil_iff)

lemma hash_not_space: "\<not> isWhiteSpace (CHR ''#'')"
  by (simp add: isWhiteSpace_def)

lemma promptEntry_not_blank: "trim (promptEntry h f c p) \<noteq> []"
  by (rule trim_nonempty [of "CHR ''#''"]) (simp_all add: promptEntry_def hash_not_space)

lemma userInputEntry_not_blank: "trim (userInputEntry h f p) \<noteq> []"
  by (rule trim_nonempty [of "CHR ''#''"]) (simp_all add: userInputEntry_def Let_def hash_not_space)

lemma appendWithRetry_first_try:
  "appendFails w = 0 \<Longrightarrow>
   appendWithRetry p c 3 100 w =
     (Inr (), w\<lparr>files := (files w)(p \<mapsto> fileContent w p @ c),
               timeline := timeline w @ [TriedAppend p True]\<rparr>)"
  by (simp add: appendWithRetry_def appendFileSync_def fileContent_def split: option.split)

lemma appendWithRetry_exhausted:
  "4 \<le> appendFails w \<Longrightarrow>
   appendWithRetry p c 3 100 w =
     (Inl (RetriesExhausted 3),
      w\<lparr>appendFails := appendFails w - 4, timeline := timeline w @ fourFailedAttempts p\<rparr>)"
  by (simp add: appendWithRetry_def appendFileSync_def sleep_def fourFailedAttempts_def)


lemma appendToLog_disabled: "\<not> enabled h \<Longrightarrow> appendToLog h content w = w"
  by (simp add: appendToLog_def)

lemma appendToLog_logged:
  assumes "enabled h" and "trim content \<noteq> []"
    and "initLogFile h w = (Inr p, w1)" and "appendFails w1 = 0"
  shows "appendToLog h content w =
           w1\<lparr>files := (files w1)(p \<mapsto> fileContent w1 p @ content),
              timeline := timeline w1 @ [TriedAppend p True]\<rparr>"
proof -
  have "content \<noteq> []" using assms(2) by (auto simp: trim_eq_Nil_iff)
  then show ?thesis
    using assms by (simp add: appendToLog_def appendWithRetry_first_try)
qed

lemma appendToLog_fallback:
  assumes "enabled h" and "trim content \<noteq> []"
    and "initLogFile h w = (Inr p, w1)" and "4 \<le> appendFails w1"
    and "readFails w1 = 0" and "writeFails w1 = 0" and "p \<notin> dirs w1"
  shows "appendToLog h content w =
           w1\<lparr>appendFails := appendFails w1 - 4,
              timeline := timeline w1 @ fourFailedAttempts p,
              files := (files w1)(p \<mapsto> fileContent w1 p @ content)\<rparr>"
proof -
  have "content \<noteq> []" using assms(2) by (auto simp: trim_eq_Nil_iff)
  then show ?thesis
    using assms
    by (simp add: appendToLog_def appendWithRetry_exhausted rewriteWithContent_def
        existsSync_def readFileSync_def writeFileSync_def fileContent_def
        split: option.split)
qed

subsection \<open>The example host, disk and prompts\<close>

lemma initLogFile_example:
  "initLogFile (exampleHost\<lparr>captureMode := m\<rparr>) emptyWorld = (Inr examplePath, preparedWorld)"
  by (simp add: initLogFile_def getLogFilePath_def workspaceLogFilePath_def initLogDirectory_def
      exampleHost_def emptyWorld_def preparedWorld_def examplePath_def existsSync_def
      mkdirSync_def writeFileSync_def pathJoin_def logFileName_def dirname_def logHeader_def)

lemma responseLikeText_facts:
  "trim responseLikeText \<noteq> []"
  "cleanupPrompt responseLikeText = responseLikeText"
  "\<not> isSystemMessage responseLikeText"
  "looksLikeResponse responseLikeText"
  by code_simp+

lemma initLogFile_prepared:
  "initLogFile exampleHost (preparedWorld\<lparr>appendFails := a, writeFails := b\<rparr>) =
     (Inr examplePath, preparedWorld\<lparr>appendFails := a, writeFails := b\<rparr>)"
  by (simp add: initLogFile_def getLogFilePath_def workspaceLogFilePath_def initLogDirectory_def
      exampleHost_def emptyWorld_def preparedWorld_def examplePath_def existsSync_def
      pathJoin_def logFileName_def dirname_def)

lemma fix_the_bug_facts:
  "trim ''fix the bug'' \<noteq> []"
  "cleanupPrompt ''fix the bug'' = ''fix the bug''"
  "\<not> isSystemMessage ''fix the bug''"
  "\<not> looksLikeResponse ''fix the bug''"
  "toLowerCase (trim ''fix the bug'') = ''fix the bug''"
  by code_simp+

lemma initLogFile_existing:
  assumes "''/ws/copilot-prompts'' \<in> dirs w" and "files w examplePath = Some old"
  shows "initLogFile exampleHost w = (Inr examplePath, w)"
proof -
  have p: "pathJoin (pathJoin ''/ws'' ''copilot-prompts'') (logFileName exampleHost) = examplePath"
    by (simp add: pathJoin_def logFileName_def exampleHost_def examplePath_def)
  have d: "dirname examplePath = ''/ws/copilot-prompts''"
    by (simp add: dirname_def examplePath_def)
  have j: "pathJoin ''/ws'' ''copilot-prompts'' = ''/ws/copilot-prompts''"
    by (simp add: pathJoin_def)
  have g: "getLogFilePath exampleHost w = (Inr examplePath, w)"
    using assms(1) p j
    by (simp add: getLogFilePath_def workspaceLogFilePath_def existsSync_def exampleHost_def)
  have i: "initLogDirectory exampleHost examplePath w = (Inr None, w)"
    using assms(1) by (simp add: initLogDirectory_def d existsSync_def)
  show ?thesis
    using assms(2) by (simp add: initLogFile_def g i existsSync_def)
qed

lemma appendToLog_existing:
  assumes "''/ws/copilot-prompts'' \<in> dirs w" and "files w examplePath = Some old"
    and "appendFails w = 0" and "trim content \<noteq> []"
  shows "files (appendToLog exampleHost content w) examplePath = Some (old @ content)"
    and "dirs (appendToLog exampleHost content w) = dirs w"
    and "appendFails (appendToLog exampleHost content w) = 0"
proof -
  have en: "enabled exampleHost" by (simp add: exampleHost_def)
  have "appendToLog exampleHost content w =
      w\<lparr>files := (files w)(examplePath \<mapsto> fileContent w examplePath @ content),
        timeline := timeline w @ [TriedAppend examplePath True]\<rparr>"
    using appendToLog_logged [OF en assms(4) initLogFile_existing [OF assms(1,2)] assms(3)] .
  then show "files (appendToLog exampleHost content w) examplePath = Some (old @ content)"
    and "dirs (appendToLog exampleHost content w) = dirs w"
    and "appendFails (appendToLog exampleHost content w) = 0"
    using assms(2,3) by (simp_all add: fileContent_def)
qed

lemma preparedWorld_facts:
  "''/ws/copilot-prompts'' \<in> dirs preparedWorld"
  "files preparedWorld examplePath = Some (logHeader exampleHost)"
  "appendFails preparedWorld = 0"
  by (simp_all add: preparedWorld_def emptyWorld_def)

subsection \<open>Context truncation\<close>

text \<open>
  Claim C8. A context longer than 500 characters is cut to its first 500 characters
  followed by the suffix "... [truncated]"; a context of at most 500 characters is left
  as it is; and this is the text between the fences of the context block of the entry
  that logPrompt formats, whenever the entry has a context block.
\<close>

theorem context_truncation:
  "(500 < length context \<longrightarrow>
      truncateIfNeeded context 500 = take 500 context @ ''... [truncated]'') \<and>
   (length context \<le> 500 \<longrightarrow> truncateIfNeeded context 500 = context) \<and>
   (shouldIncludeContext h context cleanPrompt \<longrightarrow>
      promptEntry h fileName context cleanPrompt =
        ''\<newline>### User Prompt at '' @ timestamp h @ ''\<newline>\<newline>'' @
        ''Source: '' @ asRelativePath h fileName @ ''\<newline>\<newline>'' @
        ''#### Context\<newline>\<newline>```\<newline>'' @
        (if 500 < length context then take 500 context @ ''... [truncated]'' else context) @
        ''\<newline>```\<newline>\<newline>'' @
        ''#### Input\<newline>\<newline>```\<newline>'' @ cleanPrompt @ ''\<newline>```\<newline>\<newline>'' @
        ''---\<newline>'')"
  by (simp add: truncateIfNeeded_def promptEntry_def)

theorem context_truncation_witness:
  "500 < length (replicate 600 CHR ''x'') \<and>
   truncateIfNeeded (replicate 600 CHR ''x'') 500 = replicate 500 CHR ''x'' @ ''... [truncated]'' \<and>
   length ''short context'' \<le> 500 \<and>
   truncateIfNeeded ''short context'' 500 = ''short context'' \<and>
   shouldIncludeContext exampleHost (replicate 600 CHR ''x'') ''fix the bug'' \<and>
   promptEntry exampleHost ''a.ts'' (replicate 600 CHR ''x'') ''fix the bug'' =
     ''\<newline>### User Prompt at 2025-01-01 10:00:00\<newline>\<newline>Source: a.ts\<newline>\<newline>'' @
     ''#### Context\<newline>\<newline>```\<newline>'' @ replicate 500 CHR ''x'' @ ''... [truncated]'' @
     ''\<newline>```\<newline>\<newline>#### Input\<newline>\<newline>```\<newline>fix the bug\<newline>```\<newline>\<newline>---\<newline>''"
proof -
  have inc: "shouldIncludeContext exampleHost (replicate 600 CHR ''x'') ''fix the bug''"
    by code_simp
  have h: "timestamp exampleHost = ''2025-01-01 10:00:00''" "asRelativePath exampleHost ''a.ts'' = ''a.ts''"
    by (simp_all add: exampleHost_def)
  show ?thesis
    using context_truncation [of "replicate 600 CHR ''x''" exampleHost "''fix the bug''" "''a.ts''"]
      context_truncation [of "''short context''" exampleHost "''fix the bug''" "''a.ts''"] inc h
    by simp
qed

subsection \<open>Empty and system inputs\<close>

lemma trim_blank3: "trim ''   '' = []"
  by code_simp

text \<open>
  Claim C7, as amended. On the full path, logPrompt, the empty input, the blank input,
  "Session Started: 2025-01-01" and "system: ignore this" leave the logger as it was,
  whatever the configuration and the state: no entry is written. The minimal path,
  logUserInput, rejects the empty and the blank input in the same way, and only those.
  A text is a system message when it contains "Session Started", "Session Ended" or
  "Prompt at", or starts with "system:", the prefix being compared case-sensitively;
  every prompt whose cleaned text is a system message is dropped by logPrompt.
\<close>

theorem empty_and_system_rejected:
  "logPrompt h f c [] st = st \<and>
   logPrompt h f c ''   '' st = st \<and>
   logPrompt h f c ''Session Started: 2025-01-01'' st = st \<and>
   logPrompt h f c ''system: ignore this'' st = st \<and>
   logUserInput h f [] st = st \<and>
   logUserInput h f ''   '' st = st \<and>
   isSystemMessage text =
     (includesStr text ''Session Started'' \<or> includesStr text ''Session Ended'' \<or>
      includesStr text ''Prompt at'' \<or> prefix ''system:'' text) \<and>
   \<not> isSystemMessage ''System: ignore this'' \<and>
   (isSystemMessage (cleanupPrompt p) \<longrightarrow> logPrompt h f c p st = st)"
proof -
  have a: "cleanupPrompt ''Session Started: 2025-01-01'' = ''Session Started: 2025-01-01''"
    by code_simp
  have b: "isSystemMessage ''Session Started: 2025-01-01''"
    by code_simp
  have c: "cleanupPrompt ''system: ignore this'' = ''system: ignore this''"
    by code_simp
  have d: "isSystemMessage ''system: ignore this''"
    by code_simp
  have e: "\<not> isSystemMessage ''System: ignore this''"
    by code_simp
  have l1: "logPrompt h f c [] st = st"
    by (simp add: logPrompt_def)
  have l2: "logPrompt h f c ''   '' st = st"
    by (simp add: logPrompt_def trim_blank3)
  have l3: "logPrompt h f c ''Session Started: 2025-01-01'' st = st"
    unfolding logPrompt_def Let_def a using b by simp
  have l4: "logPrompt h f c ''system: ignore this'' st = st"
    unfolding logPrompt_def Let_def c using d by simp
  have u1: "logUserInput h f [] st = st"
    by (simp add: logUserInput_def)
  have u2: "logUserInput h f ''   '' st = st"
    by (simp add: logUserInput_def trim_blank3)
  have s: "isSystemMessage text =
     (includesStr text ''Session Started'' \<or> includesStr text ''Session Ended'' \<or>
      includesStr text ''Prompt at'' \<or> prefix ''system:'' text)"
    by (simp add: isSystemMessage_def startsWith_def)
  have g: "isSystemMessage (cleanupPrompt p) \<longrightarrow> logPrompt h f c p st = st"
    by (simp add: logPrompt_def Let_def)
  from l1 l2 l3 l4 u1 u2 s e g show ?thesis by blast
qed

theorem empty_and_system_rejected_witness:
  "isSystemMessage (cleanupPrompt ''## note: Prompt at noon'') \<and>
   logPrompt exampleHost ''a.ts'' [] ''## note: Prompt at noon'' (freshLogger emptyWorld) =
     freshLogger emptyWorld"
proof -
  have "isSystemMessage (cleanupPrompt ''## note: Prompt at noon'')"
    by code_simp
  then show ?thesis
    using empty_and_system_rejected
      [of exampleHost "''a.ts''" "[]" "freshLogger emptyWorld" "[]" "''## note: Prompt at noon''"]
    by blast
qed

text \<open>
  Claim C7, as stated for the whole logging pipeline, fails on the minimal path:
  logUserInput never tests for system messages, so "system: ignore this" and "Session
  Started: 2025-01-01" are remembered and their entries appended to the log file.
\<close>

theorem system_input_logged_counterexample:
  "isSystemMessage ''system: ignore this'' \<and>
   isSystemMessage ''Session Started: 2025-01-01'' \<and>
   files (disk (freshLogger preparedWorld)) examplePath = Some (logHeader exampleHost) \<and>
   files (disk (logUserInput exampleHost ''Copilot Chat'' ''system: ignore this''
                  (freshLogger preparedWorld))) examplePath =
     Some (logHeader exampleHost @
           userInputEntry exampleHost ''Copilot Chat'' ''system: ignore this'') \<and>
   files (disk (logUserInput exampleHost ''Copilot Chat'' ''Session Started: 2025-01-01''
                  (freshLogger preparedWorld))) examplePath =
     Some (logHeader exampleHost @
           userInputEntry exampleHost ''Copilot Chat'' ''Session Started: 2025-01-01'') \<and>
   logUserInput exampleHost ''Copilot Chat'' ''system: ignore this'' (freshLogger preparedWorld) \<noteq>
     freshLogger preparedWorld \<and>
   logUserInput exampleHost ''Copilot Chat'' ''Session Started: 2025-01-01''
       (freshLogger preparedWorld) \<noteq>
     freshLogger preparedWorld"
proof -
  have sys: "isSystemMessage ''system: ignore this''" "isSystemMessage ''Session Started: 2025-01-01''"
    by code_simp+
  have t: "trim ''system: ignore this'' = ''system: ignore this''"
    "trim ''Session Started: 2025-01-01'' = ''Session Started: 2025-01-01''"
    by code_simp+
  have u1: "logUserInput exampleHost ''Copilot Chat'' ''system: ignore this''
        (freshLogger preparedWorld) =
      \<lparr>recentPrompts = [''system: ignore this''],
       disk = appendToLog exampleHost
                (userInputEntry exampleHost ''Copilot Chat'' ''system: ignore this'')
                preparedWorld\<rparr>"
    by (simp add: logUserInput_def Let_def t isDuplicate_def freshLogger_def
        unshiftBounded_def MAX_RECENT_PROMPTS_def)
  have u2: "logUserInput exampleHost ''Copilot Chat'' ''Session Started: 2025-01-01''
        (freshLogger preparedWorld) =
      \<lparr>recentPrompts = [''Session Started: 2025-01-01''],
       disk = appendToLog exampleHost
                (userInputEntry exampleHost ''Copilot Chat'' ''Session Started: 2025-01-01'')
                preparedWorld\<rparr>"
    by (simp add: logUserInput_def Let_def t isDuplicate_def freshLogger_def
        unshiftBounded_def MAX_RECENT_PROMPTS_def)
  note written = appendToLog_existing(1) [OF preparedWorld_facts userInputEntry_not_blank]
  have f0: "files (disk (freshLogger preparedWorld)) examplePath = Some (logHeader exampleHost)"
    by (simp add: freshLogger_def preparedWorld_facts)
  have f1: "files (disk (logUserInput exampleHost ''Copilot Chat'' ''system: ignore this''
                  (freshLogger preparedWorld))) examplePath =
     Some (logHeader exampleHost @
           userInputEntry exampleHost ''Copilot Chat'' ''system: ignore this'')"
    unfolding u1 by (simp add: written)
  have f2: "files (disk (logUserInput exampleHost ''Copilot Chat'' ''Session Started: 2025-01-01''
                  (freshLogger preparedWorld))) examplePath =
     Some (logHeader exampleHost @
           userInputEntry exampleHost ''Copilot Chat'' ''Session Started: 2025-01-01'')"
    unfolding u2 by (simp add: written)
  have n1: "logUserInput exampleHost ''Copilot Chat'' ''system: ignore this''
        (freshLogger preparedWorld) \<noteq> freshLogger preparedWorld"
    unfolding u1 by (simp add: freshLogger_def)
  have n2: "logUserInput exampleHost ''Copilot Chat'' ''Session Started: 2025-01-01''
        (freshLogger preparedWorld) \<noteq> freshLogger preparedWorld"
    unfolding u2 by (simp add: freshLogger_def)
  from sys f0 f1 f2 n1 n2 show ?thesis by blast
qed

subsection \<open>Trimming twice\<close>

lemma dropWhile_rev_last:
  assumes "dropWhile P (rev u) \<noteq> []"
  shows "last (dropWhile P (rev u)) = hd u"
proof -
  have "rev u = takeWhile P (rev u) @ dropWhile P (rev u)"
    by simp
  then have "last (rev u) = last (dropWhile P (rev u))"
    using assms by (metis last_appendR)
  moreover have "u \<noteq> []" using assms by auto
  ultimately show ?thesis by (simp add: last_rev)
qed

lemma trim_ends:
  assumes "trim s \<noteq> []"
  shows "\<not> isWhiteSpace (hd (trim s))" and "\<not> isWhiteSpace (last (trim s))"
proof -
  let ?u = "dropWhile isWhiteSpace s"
  let ?v = "dropWhile isWhiteSpace (rev ?u)"
  have t: "trim s = rev ?v"
    by (simp add: trim_def trimEnd_def trimStart_def)
  have v: "?v \<noteq> []" using assms t by simp
  have u: "?u \<noteq> []"
  proof
    assume "?u = []"
    then have "?v = []" by (simp only: rev.simps dropWhile.simps)
    with v show False ..
  qed
  have "hd (trim s) = last ?v"
    using v by (simp add: t hd_rev)
  also have "\<dots> = hd ?u"
    using v by (rule dropWhile_rev_last)
  finally show "\<not> isWhiteSpace (hd (trim s))"
    using hd_dropWhile [OF u] by simp
  have "last (trim s) = hd ?v"
    using v by (simp add: t last_rev)
  then show "\<not> isWhiteSpace (last (trim s))"
    using hd_dropWhile [OF v] by simp
qed

lemma trim_fixed:
  assumes "s = [] \<or> (\<not> isWhiteSpace (hd s) \<and> \<not> isWhiteSpace (last s))"
  shows "trim s = s"
proof (cases s)
  case Nil
  then show ?thesis by (simp add: trim_def trimEnd_def trimStart_def)
next
  case (Cons c cs)
  with assms have h: "\<not> isWhiteSpace c" and l: "\<not> isWhiteSpace (last s)" by auto
  have "dropWhile isWhiteSpace s = s"
    using Cons h by simp
  moreover have "dropWhile isWhiteSpace (rev s) = rev s"
  proof (cases "rev s")
    case Nil
    then show ?thesis by simp
  next
    case (Cons a as)
    have "s \<noteq> []" using \<open>s = c # cs\<close> by simp
    then have "hd (rev s) = last s" by (simp add: hd_rev)
    then have "\<not> isWhiteSpace a" using Cons l by simp
    then have "dropWhile isWhiteSpace (a # as) = a # as" by simp
    then show ?thesis by (simp only: Cons)
  qed
  ultimately show ?thesis
    by (simp add: trim_def trimEnd_def trimStart_def)
qed

lemma trim_trim: "trim (trim s) = trim s"
  by (rule trim_fixed) (use trim_ends [of s] in blast)

lemma isDuplicate_trim: "isDuplicate (trim p) recent = isDuplicate p recent"
  by (simp add: isDuplicate_def trim_trim)

subsection \<open>Capture-mode gating\<close>

text \<open>
  Claim C4. logPrompt applies the response heuristic only under the capture mode
  userInputOnly: there, a prompt whose cleaned text looks like a response is dropped and
  the logger stays as it was. Under every other mode (inputAndResponse, all) a prompt
  that is not blank, not a duplicate, not blank after cleanup and not a system message
  is accepted: it is remembered and its entry is handed to the log writer. The text
  "Here is the implementation of the function you requested." is dropped under
  userInputOnly; under all, with logging enabled and the append succeeding, its entry
  is appended to the log file.
\<close>

theorem capture_mode_gating:
  "(captureMode h = ''userInputOnly'' \<and> looksLikeResponse (cleanupPrompt p) \<longrightarrow>
      logPrompt h f c p st = st) \<and>
   (captureMode h \<noteq> ''userInputOnly'' \<and> trim p \<noteq> [] \<and> \<not> isDuplicate p (recentPrompts st) \<and>
    trim (cleanupPrompt p) \<noteq> [] \<and> \<not> isSystemMessage (cleanupPrompt p) \<longrightarrow>
      logPrompt h f c p st =
        \<lparr>recentPrompts = rememberPrompt (cleanupPrompt p) (recentPrompts st),
         disk = appendToLog h (promptEntry h f c (cleanupPrompt p)) (disk st)\<rparr>) \<and>
   (captureMode h = ''userInputOnly'' \<longrightarrow> logPrompt h f c responseLikeText st = st) \<and>
   (captureMode h = ''all'' \<and> enabled h \<and> \<not> isDuplicate responseLikeText (recentPrompts st) \<and>
    initLogFile h (disk st) = (Inr path, w1) \<and> appendFails w1 = 0 \<longrightarrow>
      recentPrompts (logPrompt h f c responseLikeText st) =
        rememberPrompt responseLikeText (recentPrompts st) \<and>
      files (disk (logPrompt h f c responseLikeText st)) path =
        Some (fileContent w1 path @ promptEntry h f c responseLikeText))"
proof -
  have a: "captureMode h = ''userInputOnly'' \<and> looksLikeResponse (cleanupPrompt p) \<longrightarrow>
      logPrompt h f c p st = st"
    by (simp add: logPrompt_def Let_def)
  have b: "captureMode h \<noteq> ''userInputOnly'' \<and> trim p \<noteq> [] \<and> \<not> isDuplicate p (recentPrompts st) \<and>
    trim (cleanupPrompt p) \<noteq> [] \<and> \<not> isSystemMessage (cleanupPrompt p) \<longrightarrow>
      logPrompt h f c p st =
        \<lparr>recentPrompts = rememberPrompt (cleanupPrompt p) (recentPrompts st),
         disk = appendToLog h (promptEntry h f c (cleanupPrompt p)) (disk st)\<rparr>"
    by (auto simp: logPrompt_def Let_def trim_eq_Nil_iff)
  have c: "captureMode h = ''userInputOnly'' \<longrightarrow> logPrompt h f c responseLikeText st = st"
    by (simp add: logPrompt_def Let_def responseLikeText_facts)
  have d: "recentPrompts (logPrompt h f c responseLikeText st) =
        rememberPrompt responseLikeText (recentPrompts st) \<and>
      files (disk (logPrompt h f c responseLikeText st)) path =
        Some (fileContent w1 path @ promptEntry h f c responseLikeText)"
    if "captureMode h = ''all''" "enabled h" "\<not> isDuplicate responseLikeText (recentPrompts st)"
      "initLogFile h (disk st) = (Inr path, w1)" "appendFails w1 = 0"
  proof -
    have "responseLikeText \<noteq> []"
      using responseLikeText_facts(1) by (auto simp: trim_eq_Nil_iff)
    then have "logPrompt h f c responseLikeText st =
        \<lparr>recentPrompts = rememberPrompt responseLikeText (recentPrompts st),
         disk = appendToLog h (promptEntry h f c responseLikeText) (disk st)\<rparr>"
      using that by (simp add: logPrompt_def Let_def responseLikeText_facts)
    then show ?thesis
      using that by (simp add: appendToLog_logged [OF _ promptEntry_not_blank])
  qed
  from a b c d show ?thesis by blast
qed

theorem capture_mode_gating_witness:
  "looksLikeResponse (cleanupPrompt responseLikeText) \<and>
   logPrompt exampleHost ''a.ts'' [] responseLikeText (freshLogger emptyWorld) =
     freshLogger emptyWorld \<and>
   files (disk (logPrompt (exampleHost\<lparr>captureMode := ''all''\<rparr>) ''a.ts'' [] responseLikeText
            (freshLogger emptyWorld))) examplePath =
     Some (logHeader exampleHost @
           promptEntry (exampleHost\<lparr>captureMode := ''all''\<rparr>) ''a.ts'' [] responseLikeText) \<and>
   logPrompt (exampleHost\<lparr>captureMode := ''inputAndResponse''\<rparr>) ''a.ts'' [] responseLikeText
       (freshLogger emptyWorld) =
     \<lparr>recentPrompts =
        rememberPrompt (cleanupPrompt responseLikeText) (recentPrompts (freshLogger emptyWorld)),
      disk = appendToLog (exampleHost\<lparr>captureMode := ''inputAndResponse''\<rparr>)
               (promptEntry (exampleHost\<lparr>captureMode := ''inputAndResponse''\<rparr>) ''a.ts'' []
                  (cleanupPrompt responseLikeText))
               (disk (freshLogger emptyWorld))\<rparr>"
proof -
  let ?all = "exampleHost\<lparr>captureMode := ''all''\<rparr>"
  let ?iar = "exampleHost\<lparr>captureMode := ''inputAndResponse''\<rparr>"
  have m1: "captureMode exampleHost = ''userInputOnly''"
    by (simp add: exampleHost_def)
  have m2: "captureMode ?all = ''all''" "enabled ?all"
    by (simp_all add: exampleHost_def)
  have m3: "captureMode ?iar \<noteq> ''userInputOnly''"
    by (simp add: exampleHost_def)
  have nd: "\<not> isDuplicate responseLikeText (recentPrompts (freshLogger emptyWorld))"
    by (simp add: isDuplicate_def freshLogger_def)
  have init: "initLogFile ?all (disk (freshLogger emptyWorld)) = (Inr examplePath, preparedWorld)"
    by (simp add: freshLogger_def initLogFile_example)
  have ok: "appendFails preparedWorld = 0"
    by (simp add: preparedWorld_def emptyWorld_def)
  have fc: "fileContent preparedWorld examplePath = logHeader exampleHost"
    by (simp add: fileContent_def preparedWorld_def)
  have r: "looksLikeResponse (cleanupPrompt responseLikeText)"
    by (simp add: responseLikeText_facts)
  have t: "trim (cleanupPrompt responseLikeText) \<noteq> []"
    "\<not> isSystemMessage (cleanupPrompt responseLikeText)"
    by (simp_all add: responseLikeText_facts)
  have w1: "logPrompt exampleHost ''a.ts'' [] responseLikeText (freshLogger emptyWorld) =
      freshLogger emptyWorld"
    using capture_mode_gating [of exampleHost responseLikeText "''a.ts''" "[]" "freshLogger emptyWorld"]
      m1 r by blast
  have "files (disk (logPrompt ?all ''a.ts'' [] responseLikeText (freshLogger emptyWorld)))
          examplePath =
        Some (fileContent preparedWorld examplePath @ promptEntry ?all ''a.ts'' [] responseLikeText)"
    using capture_mode_gating [of ?all responseLikeText "''a.ts''" "[]" "freshLogger emptyWorld"
        examplePath preparedWorld] m2 nd init ok by blast
  then have w2: "files (disk (logPrompt ?all ''a.ts'' [] responseLikeText (freshLogger emptyWorld)))
          examplePath =
        Some (logHeader exampleHost @ promptEntry ?all ''a.ts'' [] responseLikeText)"
    by (simp only: fc)
  have w3: "logPrompt ?iar ''a.ts'' [] responseLikeText (freshLogger emptyWorld) =
     \<lparr>recentPrompts =
        rememberPrompt (cleanupPrompt responseLikeText) (recentPrompts (freshLogger emptyWorld)),
      disk = appendToLog ?iar (promptEntry ?iar ''a.ts'' [] (cleanupPrompt responseLikeText))
               (disk (freshLogger emptyWorld))\<rparr>"
    using capture_mode_gating [of ?iar responseLikeText "''a.ts''" "[]" "freshLogger emptyWorld"]
      m3 nd t responseLikeText_facts(1) by blast
  from r w1 w2 w3 show ?thesis by blast
qed

subsection \<open>The minimal path does not classify\<close>

lemma logFileName_captureMode: "logFileName (h\<lparr>captureMode := m\<rparr>) = logFileName h"
  by (simp add: logFileName_def)

lemma logHeader_captureMode: "logHeader (h\<lparr>captureMode := m\<rparr>) = logHeader h"
  by (simp add: logHeader_def)

lemma getLogFilePath_captureMode:
  "getLogFilePath (h\<lparr>captureMode := m\<rparr>) w = getLogFilePath h w"
  by (simp add: getLogFilePath_def workspaceLogFilePath_def logFileName_captureMode Let_def
      cong: option.case_cong sum.case_cong prod.case_cong if_cong)

lemma initLogDirectory_captureMode:
  "initLogDirectory (h\<lparr>captureMode := m\<rparr>) p w = initLogDirectory h p w"
  by (simp add: initLogDirectory_def Let_def
      cong: option.case_cong sum.case_cong prod.case_cong if_cong)

lemma initLogFile_captureMode:
  "initLogFile (h\<lparr>captureMode := m\<rparr>) w = initLogFile h w"
  by (simp add: initLogFile_def getLogFilePath_captureMode initLogDirectory_captureMode
      logHeader_captureMode cong: option.case_cong sum.case_cong prod.case_cong if_cong)

lemma appendToLog_captureMode:
  "appendToLog (h\<lparr>captureMode := m\<rparr>) content w = appendToLog h content w"
  by (simp add: appendToLog_def initLogFile_captureMode)

text \<open>
  Claim C10. logUserInput does not classify. Its result does not depend on the capture
  mode at all; every text that is not blank and not flagged as a duplicate is
  remembered and its entry handed to the log writer, with no test for system messages
  or responses; with logging enabled and the append succeeding, the entry is appended
  to the log file. So "system: ignore this", which logPrompt rejects as a system
  message, is logged by logUserInput, and so is a text that looks like a response.
\<close>

theorem logUserInput_no_classification:
  "logUserInput (h\<lparr>captureMode := mode\<rparr>) f p st = logUserInput h f p st \<and>
   (trim p \<noteq> [] \<and> \<not> isDuplicate p (recentPrompts st) \<longrightarrow>
      logUserInput h f p st =
        \<lparr>recentPrompts = unshiftBounded (trim p) (recentPrompts st),
         disk = appendToLog h (userInputEntry h f (trim p)) (disk st)\<rparr>) \<and>
   (enabled h \<and> trim p \<noteq> [] \<and> \<not> isDuplicate p (recentPrompts st) \<and>
    initLogFile h (disk st) = (Inr path, w1) \<and> appendFails w1 = 0 \<longrightarrow>
      files (disk (logUserInput h f p st)) path =
        Some (fileContent w1 path @ userInputEntry h f (trim p)))"
proof -
  have a: "logUserInput (h\<lparr>captureMode := mode\<rparr>) f p st = logUserInput h f p st"
    by (simp add: logUserInput_def Let_def appendToLog_captureMode userInputEntry_def)
  have b: "logUserInput h f p st =
        \<lparr>recentPrompts = unshiftBounded (trim p) (recentPrompts st),
         disk = appendToLog h (userInputEntry h f (trim p)) (disk st)\<rparr>"
    if "trim p \<noteq> []" "\<not> isDuplicate p (recentPrompts st)"
  proof -
    have "p \<noteq> []" using that(1) by (auto simp: trim_eq_Nil_iff)
    then show ?thesis
      using that by (simp add: logUserInput_def Let_def isDuplicate_trim)
  qed
  have c: "files (disk (logUserInput h f p st)) path =
        Some (fileContent w1 path @ userInputEntry h f (trim p))"
    if "enabled h" "trim p \<noteq> []" "\<not> isDuplicate p (recentPrompts st)"
      "initLogFile h (disk st) = (Inr path, w1)" "appendFails w1 = 0"
    using that b by (simp add: appendToLog_logged [OF _ userInputEntry_not_blank])
  from a b c show ?thesis by blast
qed

theorem logUserInput_no_classification_witness:
  "isSystemMessage ''system: ignore this'' \<and>
   looksLikeResponse responseLikeText \<and>
   files (disk (logUserInput exampleHost ''Copilot Chat'' ''system: ignore this''
                  (freshLogger emptyWorld))) examplePath =
     Some (logHeader exampleHost @
           userInputEntry exampleHost ''Copilot Chat'' ''system: ignore this'') \<and>
   files (disk (logUserInput exampleHost ''Copilot Chat'' responseLikeText
                  (freshLogger emptyWorld))) examplePath =
     Some (logHeader exampleHost @ userInputEntry exampleHost ''Copilot Chat'' responseLikeText)"
proof -
  have sys: "isSystemMessage ''system: ignore this''"
    by code_simp
  have t1: "trim ''system: ignore this'' = ''system: ignore this''"
    by code_simp
  have t2: "trim responseLikeText = responseLikeText"
    by code_simp
  have en: "enabled exampleHost"
    by (simp add: exampleHost_def)
  have nd: "\<not> isDuplicate q (recentPrompts (freshLogger emptyWorld))" for q
    by (simp add: isDuplicate_def freshLogger_def)
  have init: "initLogFile exampleHost (disk (freshLogger emptyWorld)) = (Inr examplePath, preparedWorld)"
    using initLogFile_example [of "''userInputOnly''"] by (simp add: freshLogger_def exampleHost_def)
  have ok: "appendFails preparedWorld = 0"
    by (simp add: preparedWorld_def emptyWorld_def)
  have fc: "fileContent preparedWorld examplePath = logHeader exampleHost"
    by (simp add: fileContent_def preparedWorld_def)
  have ne1: "trim ''system: ignore this'' \<noteq> []"
    by (simp add: t1)
  have ne2: "trim responseLikeText \<noteq> []"
    by (rule responseLikeText_facts(1))
  have w1: "files (disk (logUserInput exampleHost ''Copilot Chat'' ''system: ignore this''
                  (freshLogger emptyWorld))) examplePath =
     Some (fileContent preparedWorld examplePath @
           userInputEntry exampleHost ''Copilot Chat'' (trim ''system: ignore this''))"
    using logUserInput_no_classification [where h = exampleHost and f = "''Copilot Chat''"
        and p = "''system: ignore this''" and st = "freshLogger emptyWorld"
        and path = examplePath and ?w1.0 = preparedWorld]
      en ne1 nd init ok by blast
  have w2: "files (disk (logUserInput exampleHost ''Copilot Chat'' responseLikeText
                  (freshLogger emptyWorld))) examplePath =
     Some (fileContent preparedWorld examplePath @
           userInputEntry exampleHost ''Copilot Chat'' (trim responseLikeText))"
    using logUserInput_no_classification [where h = exampleHost and f = "''Copilot Chat''"
        and p = responseLikeText and st = "freshLogger emptyWorld"
        and path = examplePath and ?w1.0 = preparedWorld]
      en ne2 nd init ok by blast
  from sys responseLikeText_facts(4) w1 w2 show ?thesis
    by (simp only: fc t1 t2 simp_thms)
qed

subsection \<open>Logging disabled\<close>

lemma login_form_facts:
  "trim ''add a login form'' \<noteq> []"
  "cleanupPrompt ''add a login form'' = ''add a login form''"
  "\<not> isSystemMessage ''add a login form''"
  "\<not> looksLikeResponse ''add a login form''"
  by code_simp+

lemma logout_form_facts:
  "trim ''add a logout form'' \<noteq> []"
  "cleanupPrompt ''add a logout form'' = ''add a logout form''"
  "\<not> isSystemMessage ''add a logout form''"
  "\<not> looksLikeResponse ''add a logout form''"
  "toLowerCase (trim ''add a logout form'') = ''add a logout form''"
  by code_simp+

text \<open>
  Claim C5, as amended. With the enabled flag false, a call of any of the logging entry
  points writes nothing: the disk is left as it was, so no entry is produced. The flag
  is read by the log writer, appendToLog, at the end of the pipeline. In the scenario
  "submit add a login form with logging enabled, disable, submit add a logout form",
  with the first append succeeding, the log file ends up holding what it held plus the
  one entry of the first prompt.
\<close>

theorem disabled_writes_nothing:
  "(\<not> enabled h \<longrightarrow>
      disk (logPrompt h f c p st) = disk st \<and>
      disk (logUserInput h f p st) = disk st \<and>
      disk (logChatMessage h p st) = disk st) \<and>
   (enabled h \<and> initLogFile h w = (Inr path, w1) \<and> appendFails w1 = 0 \<longrightarrow>
      (let st1 = logPrompt h f c ''add a login form'' (freshLogger w);
           st2 = logPrompt (h\<lparr>enabled := False\<rparr>) f c ''add a logout form'' st1
       in files (disk st1) path =
            Some (fileContent w1 path @ promptEntry h f c ''add a login form'') \<and>
          disk st2 = disk st1))"
proof -
  have off: "disk (logPrompt h f c p st) = disk st \<and>
      disk (logUserInput h f p st) = disk st \<and>
      disk (logChatMessage h p st) = disk st" if "\<not> enabled h" for h f c p st
    using that
    by (simp add: logPrompt_def logUserInput_def logChatMessage_def Let_def appendToLog_disabled)
  have on: "files (disk (logPrompt h f c ''add a login form'' (freshLogger w))) path =
            Some (fileContent w1 path @ promptEntry h f c ''add a login form'')"
    if "enabled h" "initLogFile h w = (Inr path, w1)" "appendFails w1 = 0"
  proof -
    have "logPrompt h f c ''add a login form'' (freshLogger w) =
        \<lparr>recentPrompts = rememberPrompt ''add a login form'' [],
         disk = appendToLog h (promptEntry h f c ''add a login form'') w\<rparr>"
      by (simp add: logPrompt_def Let_def login_form_facts isDuplicate_def freshLogger_def)
    then show ?thesis
      using that by (simp add: appendToLog_logged [OF _ promptEntry_not_blank])
  qed
  have "\<not> enabled (h\<lparr>enabled := False\<rparr>)" by simp
  from off [OF this] have second: "disk (logPrompt (h\<lparr>enabled := False\<rparr>) f c q st') = disk st'"
    for q st' by blast
  from off [of h f c p st] on second show ?thesis
    by (simp add: Let_def)
qed

theorem disabled_writes_nothing_witness:
  "\<not> enabled (exampleHost\<lparr>enabled := False\<rparr>) \<and>
   disk (logPrompt (exampleHost\<lparr>enabled := False\<rparr>) ''a.ts'' [] ''add a logout form''
           (freshLogger emptyWorld)) = emptyWorld \<and>
   enabled exampleHost \<and>
   initLogFile exampleHost emptyWorld = (Inr examplePath, preparedWorld) \<and>
   appendFails preparedWorld = 0 \<and>
   files (disk (logPrompt (exampleHost\<lparr>enabled := False\<rparr>) ''a.ts'' [] ''add a logout form''
                 (logPrompt exampleHost ''a.ts'' [] ''add a login form'' (freshLogger emptyWorld))))
     examplePath =
     Some (logHeader exampleHost @ promptEntry exampleHost ''a.ts'' [] ''add a login form'')"
proof -
  let ?off = "exampleHost\<lparr>enabled := False\<rparr>"
  have en: "enabled exampleHost" "\<not> enabled ?off"
    by (simp_all add: exampleHost_def)
  have init: "initLogFile exampleHost emptyWorld = (Inr examplePath, preparedWorld)"
    using initLogFile_example [of "''userInputOnly''"] by (simp add: exampleHost_def)
  have ok: "appendFails preparedWorld = 0"
    by (simp add: preparedWorld_def emptyWorld_def)
  have fc: "fileContent preparedWorld examplePath = logHeader exampleHost"
    by (simp add: fileContent_def preparedWorld_def)
  have w1: "disk (logPrompt ?off ''a.ts'' [] ''add a logout form'' (freshLogger emptyWorld)) =
      emptyWorld"
    using disabled_writes_nothing [where h = ?off and f = "''a.ts''" and c = "[]"
        and p = "''add a logout form''" and st = "freshLogger emptyWorld"] en(2)
    by (simp add: freshLogger_def)
  have w2: "files (disk (logPrompt ?off ''a.ts'' [] ''add a logout form''
                 (logPrompt exampleHost ''a.ts'' [] ''add a login form'' (freshLogger emptyWorld))))
     examplePath =
     Some (fileContent preparedWorld examplePath @
           promptEntry exampleHost ''a.ts'' [] ''add a login form'')"
    using disabled_writes_nothing [where h = exampleHost and f = "''a.ts''" and c = "[]"
        and w = emptyWorld and path = examplePath and ?w1.0 = preparedWorld] en(1) init ok
    by (simp add: Let_def)
  from en init ok w1 w2 show ?thesis
    by (simp only: fc simp_thms)
qed

text \<open>
  Claim C5, as stated, fails: with the enabled flag false, logPrompt still runs the
  duplicate check, the cleanup and the classification, and remembers the prompt, so the
  state of the pipeline does change.
\<close>

theorem disabled_history_counterexample:
  "\<not> enabled (exampleHost\<lparr>enabled := False\<rparr>) \<and>
   recentPrompts (freshLogger emptyWorld) = [] \<and>
   recentPrompts (logPrompt (exampleHost\<lparr>enabled := False\<rparr>) ''a.ts'' [] ''add a logout form''
                    (freshLogger emptyWorld)) = [''add a logout form''] \<and>
   logPrompt (exampleHost\<lparr>enabled := False\<rparr>) ''a.ts'' [] ''add a logout form''
     (freshLogger emptyWorld) \<noteq> freshLogger emptyWorld"
proof -
  let ?off = "exampleHost\<lparr>enabled := False\<rparr>"
  have a: "\<not> enabled ?off" by simp
  have b: "recentPrompts (freshLogger emptyWorld) = []" by (simp add: freshLogger_def)
  have c: "recentPrompts (logPrompt ?off ''a.ts'' [] ''add a logout form'' (freshLogger emptyWorld)) =
      [''add a logout form'']"
    by (simp add: logPrompt_def Let_def logout_form_facts isDuplicate_def freshLogger_def
        rememberPrompt_def unshiftBounded_def MAX_RECENT_PROMPTS_def)
  from b c have d: "logPrompt ?off ''a.ts'' [] ''add a logout form'' (freshLogger emptyWorld) \<noteq>
      freshLogger emptyWorld"
    by (metis list.distinct(1))
  from a b c d show ?thesis by blast
qed

subsection \<open>A failed append\<close>

text \<open>
  Claim C6 against the code. The log file exists with its header; the four append
  attempts fail and the rewrite of the fallback fails too. logPrompt has remembered the
  prompt before it calls the log writer and nothing takes it back: the file still holds
  the header alone, the history holds "fix the bug", and the same prompt submitted
  again, now that nothing would fail, is dropped as a duplicate and never written.
\<close>

theorem failed_append_still_remembered:
  "(let st1 = logPrompt exampleHost ''a.ts'' [] ''fix the bug'' (freshLogger failingWorld);
        st2 = logPrompt exampleHost ''a.ts'' [] ''fix the bug'' st1
    in files failingWorld examplePath = Some (logHeader exampleHost) \<and>
       files (disk st1) examplePath = Some (logHeader exampleHost) \<and>
       appendFails (disk st1) = 0 \<and> writeFails (disk st1) = 0 \<and>
       timeline (disk st1) = fourFailedAttempts examplePath \<and>
       recentPrompts st1 = [''fix the bug''] \<and>
       isDuplicate ''fix the bug'' (recentPrompts st1) \<and>
       st2 = st1)"
proof -
  let ?st1 = "logPrompt exampleHost ''a.ts'' [] ''fix the bug'' (freshLogger failingWorld)"
  let ?e = "promptEntry exampleHost ''a.ts'' [] ''fix the bug''"
  have st1: "?st1 = \<lparr>recentPrompts = [''fix the bug''],
                     disk = appendToLog exampleHost ?e failingWorld\<rparr>"
    by (simp add: logPrompt_def Let_def fix_the_bug_facts isDuplicate_def freshLogger_def
        rememberPrompt_def unshiftBounded_def MAX_RECENT_PROMPTS_def)
  have en: "enabled exampleHost" by (simp add: exampleHost_def)
  have ne: "?e \<noteq> []" using promptEntry_not_blank [of exampleHost "''a.ts''" "[]" "''fix the bug''"]
    by (auto simp: trim_eq_Nil_iff)
  have init: "initLogFile exampleHost failingWorld = (Inr examplePath, failingWorld)"
    by (simp add: failingWorld_def initLogFile_prepared)
  have retry: "appendWithRetry examplePath ?e 3 100 failingWorld =
      (Inl (RetriesExhausted 3),
       failingWorld\<lparr>appendFails := 0, timeline := fourFailedAttempts examplePath\<rparr>)"
    using appendWithRetry_exhausted [of failingWorld examplePath ?e]
    by (simp add: failingWorld_def preparedWorld_def emptyWorld_def)
  have rewrite: "rewriteWithContent examplePath ?e
        (failingWorld\<lparr>appendFails := 0, timeline := fourFailedAttempts examplePath\<rparr>) =
      failingWorld\<lparr>appendFails := 0, timeline := fourFailedAttempts examplePath,
                    writeFails := 0\<rparr>"
    by (simp add: rewriteWithContent_def existsSync_def readFileSync_def writeFileSync_def
        failingWorld_def preparedWorld_def emptyWorld_def)
  have d: "appendToLog exampleHost ?e failingWorld =
      failingWorld\<lparr>appendFails := 0, timeline := fourFailedAttempts examplePath,
                    writeFails := 0\<rparr>"
    using en ne promptEntry_not_blank [of exampleHost "''a.ts''" "[]" "''fix the bug''"]
    by (simp add: appendToLog_def init retry rewrite)
  have dup: "isDuplicate ''fix the bug'' [''fix the bug'']"
    by (simp add: isDuplicate_def fix_the_bug_facts)
  have st2: "logPrompt exampleHost ''a.ts'' [] ''fix the bug'' ?st1 = ?st1"
    unfolding st1 using dup by (simp add: logPrompt_def fix_the_bug_facts)
  show ?thesis
    unfolding Let_def st2 unfolding st1 d using dup
    by (simp add: failingWorld_def preparedWorld_def)
qed


subsection \<open>Retries and the rewrite fallback\<close>

lemma appendWithRetry_recovers:
  assumes "appendFails w < 4"
  shows "appendWithRetry p c 3 100 w =
     (Inr (),
      w\<lparr>appendFails := 0,
        files := (files w)(p \<mapsto> fileContent w p @ c),
        timeline := timeline w @
          concat (replicate (appendFails w) [TriedAppend p False, Slept 100]) @
          [TriedAppend p True]\<rparr>)"
proof -
  consider "appendFails w = 0" | "appendFails w = 1" | "appendFails w = 2" | "appendFails w = 3"
    using assms by linarith
  then show ?thesis
  proof cases
    case 1
    then show ?thesis
      by (simp add: appendWithRetry_def appendFileSync_def fileContent_def split: option.split)
  next
    case 2
    then show ?thesis
      by (simp add: appendWithRetry_def appendFileSync_def sleep_def fileContent_def
          split: option.split)
  next
    case 3
    then show ?thesis
      by (simp add: appendWithRetry_def appendFileSync_def sleep_def fileContent_def
          numeral_2_eq_2 split: option.split)
  next
    case 4
    then show ?thesis
      by (simp add: appendWithRetry_def appendFileSync_def sleep_def fileContent_def
          numeral_3_eq_3 split: option.split)
  qed
qed

text \<open>
  Claim C9. An append is declared failed exactly when four attempts in a row have
  failed: the first one and three retries, with a wait of 100 ms between one attempt
  and the next. With fewer failures the content is appended after as many waits of
  100 ms. The log writer makes every append through this loop with these settings, and
  when the loop fails it reads the file, puts the new content behind what it read and
  writes the file back: when that read and write succeed, the file holds the old
  content followed by the entry.
\<close>

theorem append_retry_policy:
  "(fst (appendWithRetry p c 3 100 w) = Inl (RetriesExhausted 3) \<longleftrightarrow> 4 \<le> appendFails w) \<and>
   (4 \<le> appendFails w \<longrightarrow>
      snd (appendWithRetry p c 3 100 w) =
        w\<lparr>appendFails := appendFails w - 4, timeline := timeline w @ fourFailedAttempts p\<rparr>) \<and>
   (appendFails w < 4 \<longrightarrow>
      fst (appendWithRetry p c 3 100 w) = Inr () \<and>
      files (snd (appendWithRetry p c 3 100 w)) p = Some (fileContent w p @ c) \<and>
      timeline (snd (appendWithRetry p c 3 100 w)) =
        timeline w @ concat (replicate (appendFails w) [TriedAppend p False, Slept 100]) @
        [TriedAppend p True]) \<and>
   (enabled h \<and> trim content \<noteq> [] \<and> initLogFile h w = (Inr path, w1) \<longrightarrow>
      appendToLog h content w =
        (case appendWithRetry path content 3 100 w1 of
           (Inr u, w2) \<Rightarrow> w2
         | (Inl e, w2) \<Rightarrow> rewriteWithContent path content w2)) \<and>
   (enabled h \<and> trim content \<noteq> [] \<and> initLogFile h w = (Inr path, w1) \<and>
    4 \<le> appendFails w1 \<and> readFails w1 = 0 \<and> writeFails w1 = 0 \<and> path \<notin> dirs w1 \<longrightarrow>
      appendToLog h content w =
        w1\<lparr>appendFails := appendFails w1 - 4,
           timeline := timeline w1 @ fourFailedAttempts path,
           files := (files w1)(path \<mapsto> fileContent w1 path @ content)\<rparr>)"
proof -
  have a: "fst (appendWithRetry p c 3 100 w) = Inl (RetriesExhausted 3) \<longleftrightarrow> 4 \<le> appendFails w"
  proof (cases "4 \<le> appendFails w")
    case True
    then show ?thesis by (simp add: appendWithRetry_exhausted)
  next
    case False
    then have "appendFails w < 4" by simp
    then show ?thesis by (simp add: appendWithRetry_recovers)
  qed
  have b: "4 \<le> appendFails w \<longrightarrow>
      snd (appendWithRetry p c 3 100 w) =
        w\<lparr>appendFails := appendFails w - 4, timeline := timeline w @ fourFailedAttempts p\<rparr>"
    by (simp add: appendWithRetry_exhausted)
  have c: "appendFails w < 4 \<longrightarrow>
      fst (appendWithRetry p c 3 100 w) = Inr () \<and>
      files (snd (appendWithRetry p c 3 100 w)) p = Some (fileContent w p @ c) \<and>
      timeline (snd (appendWithRetry p c 3 100 w)) =
        timeline w @ concat (replicate (appendFails w) [TriedAppend p False, Slept 100]) @
        [TriedAppend p True]"
    by (simp add: appendWithRetry_recovers)
  have d: "appendToLog h content w =
        (case appendWithRetry path content 3 100 w1 of
           (Inr u, w2) \<Rightarrow> w2
         | (Inl e, w2) \<Rightarrow> rewriteWithContent path content w2)"
    if "enabled h" "trim content \<noteq> []" "initLogFile h w = (Inr path, w1)"
  proof -
    have "content \<noteq> []" using that(2) by (auto simp: trim_eq_Nil_iff)
    then show ?thesis
      using that by (simp add: appendToLog_def split: prod.split sum.split)
  qed
  have e: "enabled h \<and> trim content \<noteq> [] \<and> initLogFile h w = (Inr path, w1) \<and>
    4 \<le> appendFails w1 \<and> readFails w1 = 0 \<and> writeFails w1 = 0 \<and> path \<notin> dirs w1 \<longrightarrow>
      appendToLog h content w =
        w1\<lparr>appendFails := appendFails w1 - 4,
           timeline := timeline w1 @ fourFailedAttempts path,
           files := (files w1)(path \<mapsto> fileContent w1 path @ content)\<rparr>"
    using appendToLog_fallback [of h content w path w1] by blast
  from a b c d e show ?thesis by blast
qed


theorem append_retry_policy_witness:
  "4 \<le> appendFails (preparedWorld\<lparr>appendFails := 4, writeFails := 0\<rparr>) \<and>
   fst (appendWithRetry examplePath ''x'' 3 100 (preparedWorld\<lparr>appendFails := 4, writeFails := 0\<rparr>)) =
     Inl (RetriesExhausted 3) \<and>
   timeline (snd (appendWithRetry examplePath ''x'' 3 100
                    (preparedWorld\<lparr>appendFails := 4, writeFails := 0\<rparr>))) =
     fourFailedAttempts examplePath \<and>
   appendFails (preparedWorld\<lparr>appendFails := 2, writeFails := 0\<rparr>) < 4 \<and>
   files (snd (appendWithRetry examplePath ''x'' 3 100
                 (preparedWorld\<lparr>appendFails := 2, writeFails := 0\<rparr>))) examplePath =
     Some (logHeader exampleHost @ ''x'') \<and>
   timeline (snd (appendWithRetry examplePath ''x'' 3 100
                    (preparedWorld\<lparr>appendFails := 2, writeFails := 0\<rparr>))) =
     [TriedAppend examplePath False, Slept 100, TriedAppend examplePath False, Slept 100,
      TriedAppend examplePath True] \<and>
   enabled exampleHost \<and> trim ''x'' \<noteq> [] \<and>
   initLogFile exampleHost (preparedWorld\<lparr>appendFails := 4, writeFails := 0\<rparr>) =
     (Inr examplePath, preparedWorld\<lparr>appendFails := 4, writeFails := 0\<rparr>) \<and>
   files (appendToLog exampleHost ''x'' (preparedWorld\<lparr>appendFails := 4, writeFails := 0\<rparr>))
     examplePath = Some (logHeader exampleHost @ ''x'')"
proof -
  let ?w4 = "preparedWorld\<lparr>appendFails := 4, writeFails := 0\<rparr>"
  let ?w2 = "preparedWorld\<lparr>appendFails := 2, writeFails := 0\<rparr>"
  have f4: "4 \<le> appendFails ?w4" "readFails ?w4 = 0" "writeFails ?w4 = 0"
    "examplePath \<notin> dirs ?w4" "timeline ?w4 = []"
    by (simp_all add: preparedWorld_def emptyWorld_def examplePath_def)
  have f2: "appendFails ?w2 < 4" "appendFails ?w2 = 2" "timeline ?w2 = []"
    by (simp_all add: preparedWorld_def emptyWorld_def)
  have fc: "fileContent ?w4 examplePath = logHeader exampleHost"
    "fileContent ?w2 examplePath = logHeader exampleHost"
    by (simp_all add: fileContent_def preparedWorld_def)
  have tl0: "timeline preparedWorld = []"
    by (simp add: preparedWorld_def emptyWorld_def)
  have en: "enabled exampleHost" by (simp add: exampleHost_def)
  have tx: "trim ''x'' \<noteq> []" by code_simp
  have init: "initLogFile exampleHost ?w4 = (Inr examplePath, ?w4)"
    by (rule initLogFile_prepared)
  note t4 = append_retry_policy [where w = ?w4 and p = examplePath and c = "''x''"
      and h = exampleHost and content = "''x''" and path = examplePath and ?w1.0 = ?w4]
  note t2 = append_retry_policy [where w = ?w2 and p = examplePath and c = "''x''"
      and h = exampleHost and content = "''x''" and path = examplePath and ?w1.0 = ?w4]
  have a: "fst (appendWithRetry examplePath ''x'' 3 100 ?w4) = Inl (RetriesExhausted 3)"
    using t4 f4(1) by blast
  have "snd (appendWithRetry examplePath ''x'' 3 100 ?w4) =
      ?w4\<lparr>appendFails := appendFails ?w4 - 4,
          timeline := timeline ?w4 @ fourFailedAttempts examplePath\<rparr>"
    using t4 f4(1) by blast
  then have b: "timeline (snd (appendWithRetry examplePath ''x'' 3 100 ?w4)) =
      fourFailedAttempts examplePath"
    by (simp add: f4(5) tl0)
  have "files (snd (appendWithRetry examplePath ''x'' 3 100 ?w2)) examplePath =
      Some (fileContent ?w2 examplePath @ ''x'')"
    using t2 f2(1) by blast
  then have c: "files (snd (appendWithRetry examplePath ''x'' 3 100 ?w2)) examplePath =
      Some (logHeader exampleHost @ ''x'')"
    by (simp only: fc)
  have "timeline (snd (appendWithRetry examplePath ''x'' 3 100 ?w2)) =
      timeline ?w2 @ concat (replicate (appendFails ?w2) [TriedAppend examplePath False, Slept 100]) @
      [TriedAppend examplePath True]"
    using t2 f2(1) by blast
  then have d: "timeline (snd (appendWithRetry examplePath ''x'' 3 100 ?w2)) =
     [TriedAppend examplePath False, Slept 100, TriedAppend examplePath False, Slept 100,
      TriedAppend examplePath True]"
    by (simp add: f2(2,3) tl0 numeral_2_eq_2)
  have "appendToLog exampleHost ''x'' ?w4 =
      ?w4\<lparr>appendFails := appendFails ?w4 - 4,
          timeline := timeline ?w4 @ fourFailedAttempts examplePath,
          files := (files ?w4)(examplePath \<mapsto> fileContent ?w4 examplePath @ ''x'')\<rparr>"
    using t4 en tx init f4 by blast
  then have e: "files (appendToLog exampleHost ''x'' ?w4) examplePath =
      Some (logHeader exampleHost @ ''x'')"
    by (simp add: fc)
  from f4(1) a b f2(1) c d en tx init e show ?thesis by blast
qed

subsection \<open>The comparison key of the duplicate filter\<close>

lemma capitalised_facts:
  "trim ''Fix The Bug'' = ''Fix The Bug''"
  "toLowerCase ''Fix The Bug'' = ''fix the bug''"
  "trim ''Fix The Bug  '' = ''Fix The Bug''"
  "trim ''fix --- the bug'' = ''fix --- the bug''"
  "toLowerCase ''fix --- the bug'' = ''fix --- the bug''"
  "cleanupPrompt ''fix --- the bug'' = ''fix  the bug''"
  "trim ''fix  the bug'' = ''fix  the bug''"
  "toLowerCase ''fix  the bug'' = ''fix  the bug''"
  "\<not> isSystemMessage ''fix  the bug''"
  "\<not> looksLikeResponse ''fix  the bug''"
  "trim ''fix the bug'' = ''fix the bug''"
  by code_simp+

text \<open>
  Claim C1 against the code. isDuplicate looks up the trimmed, lowercased text, but
  logUserInput stores the text trimmed only, and logPrompt stores the normal form of
  the cleaned text while it looks up the normal form of the raw text. So "Fix The Bug"
  submitted twice through logUserInput is written twice, and "fix --- the bug"
  submitted twice through logPrompt is written twice, although each pair has equal
  normal forms and the first submission was logged. The example of the claim itself,
  "fix the bug" followed by "Fix The Bug  ", is suppressed on both paths.
\<close>

theorem duplicate_key_mismatch:
  "(let e = userInputEntry exampleHost ''Copilot Chat'' ''Fix The Bug'';
        st1 = logUserInput exampleHost ''Copilot Chat'' ''Fix The Bug'' (freshLogger preparedWorld);
        st2 = logUserInput exampleHost ''Copilot Chat'' ''Fix The Bug'' st1
    in recentPrompts st1 = [''Fix The Bug''] \<and>
       files (disk st1) examplePath = Some (logHeader exampleHost @ e) \<and>
       \<not> isDuplicate ''Fix The Bug'' (recentPrompts st1) \<and>
       files (disk st2) examplePath = Some (logHeader exampleHost @ e @ e)) \<and>
   (let e = promptEntry exampleHost ''a.ts'' [] ''fix  the bug'';
        st1 = logPrompt exampleHost ''a.ts'' [] ''fix --- the bug'' (freshLogger preparedWorld);
        st2 = logPrompt exampleHost ''a.ts'' [] ''fix --- the bug'' st1
    in recentPrompts st1 = [''fix  the bug''] \<and>
       files (disk st1) examplePath = Some (logHeader exampleHost @ e) \<and>
       \<not> isDuplicate ''fix --- the bug'' (recentPrompts st1) \<and>
       files (disk st2) examplePath = Some (logHeader exampleHost @ e @ e)) \<and>
   (let st1 = logPrompt exampleHost ''a.ts'' [] ''fix the bug'' (freshLogger preparedWorld)
    in logPrompt exampleHost ''a.ts'' [] ''Fix The Bug  '' st1 = st1) \<and>
   (let st1 = logUserInput exampleHost ''Copilot Chat'' ''fix the bug'' (freshLogger preparedWorld)
    in logUserInput exampleHost ''Copilot Chat'' ''Fix The Bug  '' st1 = st1)"
proof -
  let ?eu = "userInputEntry exampleHost ''Copilot Chat'' ''Fix The Bug''"
  let ?ep = "promptEntry exampleHost ''a.ts'' [] ''fix  the bug''"
  let ?w1 = "appendToLog exampleHost ?eu preparedWorld"
  let ?v1 = "appendToLog exampleHost ?ep preparedWorld"
  note first = appendToLog_existing [OF preparedWorld_facts]
  have u1: "logUserInput exampleHost ''Copilot Chat'' ''Fix The Bug'' (freshLogger preparedWorld) =
      \<lparr>recentPrompts = [''Fix The Bug''], disk = ?w1\<rparr>"
    by (simp add: logUserInput_def Let_def capitalised_facts isDuplicate_def freshLogger_def
        unshiftBounded_def MAX_RECENT_PROMPTS_def)
  have nd: "\<not> isDuplicate ''Fix The Bug'' [''Fix The Bug'']"
    by (simp add: isDuplicate_def capitalised_facts)
  have u2: "logUserInput exampleHost ''Copilot Chat'' ''Fix The Bug''
        \<lparr>recentPrompts = [''Fix The Bug''], disk = ?w1\<rparr> =
      \<lparr>recentPrompts = [''Fix The Bug'', ''Fix The Bug''],
       disk = appendToLog exampleHost ?eu ?w1\<rparr>"
    using nd
    by (simp add: logUserInput_def Let_def capitalised_facts unshiftBounded_def
        MAX_RECENT_PROMPTS_def)
  have fu1: "files ?w1 examplePath = Some (logHeader exampleHost @ ?eu)"
    by (rule first(1) [OF userInputEntry_not_blank])
  have fu2: "files (appendToLog exampleHost ?eu ?w1) examplePath =
      Some ((logHeader exampleHost @ ?eu) @ ?eu)"
  proof (rule appendToLog_existing(1) [OF _ fu1 _ userInputEntry_not_blank])
    show "''/ws/copilot-prompts'' \<in> dirs ?w1"
      by (simp add: first(2) [OF userInputEntry_not_blank] preparedWorld_facts)
    show "appendFails ?w1 = 0"
      by (rule first(3) [OF userInputEntry_not_blank])
  qed
  have a: "let e = ?eu;
        st1 = logUserInput exampleHost ''Copilot Chat'' ''Fix The Bug'' (freshLogger preparedWorld);
        st2 = logUserInput exampleHost ''Copilot Chat'' ''Fix The Bug'' st1
    in recentPrompts st1 = [''Fix The Bug''] \<and>
       files (disk st1) examplePath = Some (logHeader exampleHost @ e) \<and>
       \<not> isDuplicate ''Fix The Bug'' (recentPrompts st1) \<and>
       files (disk st2) examplePath = Some (logHeader exampleHost @ e @ e)"
    unfolding Let_def u1 u2 using nd fu1 fu2 by simp
  have p1: "logPrompt exampleHost ''a.ts'' [] ''fix --- the bug'' (freshLogger preparedWorld) =
      \<lparr>recentPrompts = [''fix  the bug''], disk = ?v1\<rparr>"
    by (simp add: logPrompt_def Let_def capitalised_facts isDuplicate_def freshLogger_def
        rememberPrompt_def unshiftBounded_def MAX_RECENT_PROMPTS_def exampleHost_def)
  have npd: "\<not> isDuplicate ''fix --- the bug'' [''fix  the bug'']"
    by (simp add: isDuplicate_def capitalised_facts)
  have p2: "logPrompt exampleHost ''a.ts'' [] ''fix --- the bug''
        \<lparr>recentPrompts = [''fix  the bug''], disk = ?v1\<rparr> =
      \<lparr>recentPrompts = [''fix  the bug'', ''fix  the bug''],
       disk = appendToLog exampleHost ?ep ?v1\<rparr>"
    using npd
    by (simp add: logPrompt_def Let_def capitalised_facts rememberPrompt_def unshiftBounded_def
        MAX_RECENT_PROMPTS_def exampleHost_def)
  have fp1: "files ?v1 examplePath = Some (logHeader exampleHost @ ?ep)"
    by (rule first(1) [OF promptEntry_not_blank])
  have fp2: "files (appendToLog exampleHost ?ep ?v1) examplePath =
      Some ((logHeader exampleHost @ ?ep) @ ?ep)"
  proof (rule appendToLog_existing(1) [OF _ fp1 _ promptEntry_not_blank])
    show "''/ws/copilot-prompts'' \<in> dirs ?v1"
      by (simp add: first(2) [OF promptEntry_not_blank] preparedWorld_facts)
    show "appendFails ?v1 = 0"
      by (rule first(3) [OF promptEntry_not_blank])
  qed
  have b: "let e = ?ep;
        st1 = logPrompt exampleHost ''a.ts'' [] ''fix --- the bug'' (freshLogger preparedWorld);
        st2 = logPrompt exampleHost ''a.ts'' [] ''fix --- the bug'' st1
    in recentPrompts st1 = [''fix  the bug''] \<and>
       files (disk st1) examplePath = Some (logHeader exampleHost @ e) \<and>
       \<not> isDuplicate ''fix --- the bug'' (recentPrompts st1) \<and>
       files (disk st2) examplePath = Some (logHeader exampleHost @ e @ e)"
    unfolding Let_def p1 p2 using npd fp1 fp2 by simp
  have q1: "recentPrompts (logPrompt exampleHost ''a.ts'' [] ''fix the bug'' (freshLogger preparedWorld)) =
      [''fix the bug'']"
    by (simp add: logPrompt_def Let_def fix_the_bug_facts isDuplicate_def freshLogger_def
        rememberPrompt_def unshiftBounded_def MAX_RECENT_PROMPTS_def exampleHost_def)
  have dupq: "isDuplicate ''Fix The Bug  '' [''fix the bug'']"
    by (simp add: isDuplicate_def capitalised_facts)
  have c: "let st1 = logPrompt exampleHost ''a.ts'' [] ''fix the bug'' (freshLogger preparedWorld)
    in logPrompt exampleHost ''a.ts'' [] ''Fix The Bug  '' st1 = st1"
    unfolding Let_def using dupq by (simp add: logPrompt_def [of _ _ _ "''Fix The Bug  ''"] q1)
  have r1: "recentPrompts (logUserInput exampleHost ''Copilot Chat'' ''fix the bug''
        (freshLogger preparedWorld)) = [''fix the bug'']"
    by (simp add: logUserInput_def Let_def capitalised_facts isDuplicate_def freshLogger_def
        unshiftBounded_def MAX_RECENT_PROMPTS_def)
  have dupr: "isDuplicate ''Fix The Bug'' [''fix the bug'']"
    by (simp add: isDuplicate_def capitalised_facts)
  have d: "let st1 = logUserInput exampleHost ''Copilot Chat'' ''fix the bug'' (freshLogger preparedWorld)
    in logUserInput exampleHost ''Copilot Chat'' ''Fix The Bug  '' st1 = st1"
    unfolding Let_def using dupr
    by (simp add: logUserInput_def [of _ _ "''Fix The Bug  ''"] Let_def r1 capitalised_facts)
  from a b c d show ?thesis by blast
qed

subsection \<open>Lines\<close>

lemma splitLines_Nil: "splitLines [] = [[]]"
  by (subst splitLines.simps) simp

lemma splitLines_not_Nil: "splitLines s \<noteq> []"
  by (subst splitLines.simps) simp

lemma splitLines_newline: "splitLines (CHR 0x0A # z) = [] # splitLines z"
  by (subst splitLines.simps) simp

lemma splitLines_single: "CHR 0x0A \<notin> set xs \<Longrightarrow> splitLines xs = [xs]"
proof -
  assume a: "CHR 0x0A \<notin> set xs"
  then have t: "takeWhile (\<lambda>c. c \<noteq> CHR 0x0A) xs = xs"
    and d: "dropWhile (\<lambda>c. c \<noteq> CHR 0x0A) xs = []"
    by (auto simp: takeWhile_eq_all_conv)
  show ?thesis
    by (subst splitLines.simps) (simp only: t d list.case)
qed

lemma splitLines_Cons:
  assumes "c \<noteq> CHR 0x0A"
  shows "splitLines (c # z) = (c # hd (splitLines z)) # tl (splitLines z)"
proof -
  have a: "splitLines (c # z) =
      (c # takeWhile (\<lambda>c. c \<noteq> CHR 0x0A) z) #
      (case dropWhile (\<lambda>c. c \<noteq> CHR 0x0A) z of [] \<Rightarrow> [] | c # rest \<Rightarrow> splitLines rest)"
    using assms by (subst splitLines.simps) simp
  have b: "splitLines z =
      takeWhile (\<lambda>c. c \<noteq> CHR 0x0A) z #
      (case dropWhile (\<lambda>c. c \<noteq> CHR 0x0A) z of [] \<Rightarrow> [] | c # rest \<Rightarrow> splitLines rest)"
    by (subst splitLines.simps) simp
  show ?thesis
    by (simp add: a b)
qed

lemma splitLines_append_newline:
  "splitLines (xs @ CHR 0x0A # ys) = splitLines xs @ splitLines ys"
proof (induction xs)
  case Nil
  then show ?case by (simp add: splitLines_newline splitLines_Nil)
next
  case (Cons c xs)
  show ?case
  proof (cases "c = CHR 0x0A")
    case True
    then show ?thesis using Cons by (simp add: splitLines_newline)
  next
    case False
    then show ?thesis
      using Cons splitLines_not_Nil [of xs] by (simp add: splitLines_Cons)
  qed
qed

lemma joinLines_splitLines: "joinLines (splitLines s) = s"
proof (induction s rule: splitLines.induct)
  case (1 s)
  let ?P = "\<lambda>c. c \<noteq> CHR 0x0A"
  show ?case
  proof (cases "dropWhile ?P s")
    case Nil
    then have "CHR 0x0A \<notin> set s"
      using dropWhile_eq_Nil_conv [of ?P s] by blast
    then have "splitLines s = [s]"
      by (rule splitLines_single)
    then show ?thesis
      by (simp only: joinLines.simps)
  next
    case (Cons c rest)
    have ne: "dropWhile ?P s \<noteq> []"
      unfolding Cons by simp
    have "\<not> ?P (hd (dropWhile ?P s))"
      by (rule hd_dropWhile [OF ne])
    then have c: "c = CHR 0x0A"
      unfolding Cons by simp
    have ih: "joinLines (splitLines rest) = rest"
      by (rule "1.IH" [OF Cons])
    obtain l ls where ls: "splitLines rest = l # ls"
      using splitLines_not_Nil [of rest] by (cases "splitLines rest") auto
    have "splitLines s = takeWhile ?P s # splitLines rest"
      using splitLines.simps [of s] by (simp only: Cons list.case)
    then have "joinLines (splitLines s) = takeWhile ?P s @ CHR 0x0A # joinLines (splitLines rest)"
      by (simp only: ls joinLines.simps)
    also have "\<dots> = takeWhile ?P s @ dropWhile ?P s"
      by (simp only: ih Cons c)
    also have "\<dots> = s"
      by (rule takeWhile_dropWhile_id)
    finally show ?thesis .
  qed
qed

lemma splitLines_joinLines:
  "ls \<noteq> [] \<Longrightarrow> \<forall>l \<in> set ls. CHR 0x0A \<notin> set l \<Longrightarrow> splitLines (joinLines ls) = ls"
proof (induction ls rule: joinLines.induct)
  case 1
  then show ?case by simp
next
  case (2 l)
  then show ?case by (simp add: splitLines_single)
next
  case (3 l v va)
  then show ?case
    by (simp add: splitLines_append_newline splitLines_single)
qed

lemma splitLines_no_newline: "l \<in> set (splitLines s) \<Longrightarrow> CHR 0x0A \<notin> set l"
proof (induction s arbitrary: l rule: splitLines.induct)
  case (1 s)
  let ?P = "\<lambda>c. c \<noteq> CHR 0x0A"
  have s: "splitLines s =
      takeWhile ?P s # (case dropWhile ?P s of [] \<Rightarrow> [] | c # rest \<Rightarrow> splitLines rest)"
    by (subst splitLines.simps) simp
  show ?case
  proof (cases "l = takeWhile ?P s")
    case True
    then show ?thesis by (auto dest: set_takeWhileD)
  next
    case False
    with "1.prems" s obtain c rest where "dropWhile ?P s = c # rest" "l \<in> set (splitLines rest)"
      by (cases "dropWhile ?P s") auto
    then show ?thesis using "1.IH" by blast
  qed
qed

subsection \<open>Trimming keeps a text free of blank lines\<close>

lemma noBlankLine_drop_head:
  assumes "noBlankLine (c # z)" and "isWhiteSpace c"
  shows "noBlankLine z"
proof (cases "c = CHR 0x0A")
  case True
  then have "[] \<in> set (splitLines (c # z))"
    by (simp add: splitLines_newline)
  then have "trim [] \<noteq> []"
    using assms(1) unfolding noBlankLine_def by blast
  then show ?thesis by (simp add: trim_eq_Nil_iff)
next
  case False
  obtain f r where fr: "splitLines z = f # r"
    using splitLines_not_Nil [of z] by (cases "splitLines z") auto
  have s: "splitLines (c # z) = (c # f) # r"
    using False by (simp add: splitLines_Cons fr)
  have "trim (c # f) \<noteq> []" and r: "\<forall>l \<in> set r. trim l \<noteq> []"
    using assms(1) unfolding noBlankLine_def s by simp_all
  then have "trim f \<noteq> []"
    using assms(2) by (auto simp: trim_eq_Nil_iff)
  with r show ?thesis
    unfolding noBlankLine_def fr by simp
qed

lemma noBlankLine_trimStart: "noBlankLine s \<Longrightarrow> noBlankLine (trimStart s)"
  unfolding trimStart_def
  by (induction s) (auto dest: noBlankLine_drop_head)

lemma splitLines_snoc:
  assumes "c \<noteq> CHR 0x0A"
  shows "splitLines (z @ [c]) = butlast (splitLines z) @ [last (splitLines z) @ [c]]"
proof (cases "CHR 0x0A \<in> set z")
  case False
  then show ?thesis
    using assms by (simp add: splitLines_single)
next
  case True
  then obtain p q where z: "z = p @ CHR 0x0A # q" and q: "CHR 0x0A \<notin> set q"
    by (meson split_list_last)
  have "splitLines (z @ [c]) = splitLines p @ splitLines (q @ [c])"
    unfolding z using splitLines_append_newline [of p "q @ [c]"] by simp
  also have "\<dots> = splitLines p @ [q @ [c]]"
    using q assms by (simp add: splitLines_single)
  finally have l: "splitLines (z @ [c]) = splitLines p @ [q @ [c]]" .
  have r: "splitLines z = splitLines p @ [q]"
    unfolding z using q by (simp add: splitLines_append_newline splitLines_single)
  show ?thesis
    by (simp add: l r)
qed

lemma splitLines_snoc_newline: "splitLines (z @ [CHR 0x0A]) = splitLines z @ [[]]"
  using splitLines_append_newline [of z "[]"] by (simp add: splitLines_Nil)

lemma noBlankLine_drop_last:
  assumes "noBlankLine (z @ [c])" and "isWhiteSpace c"
  shows "noBlankLine z"
proof (cases "c = CHR 0x0A")
  case True
  then have "[] \<in> set (splitLines (z @ [c]))"
    by (simp add: splitLines_snoc_newline)
  then have "trim [] \<noteq> []"
    using assms(1) unfolding noBlankLine_def by blast
  then show ?thesis by (simp add: trim_eq_Nil_iff)
next
  case False
  have ne: "splitLines z \<noteq> []" by (rule splitLines_not_Nil)
  have s: "splitLines (z @ [c]) = butlast (splitLines z) @ [last (splitLines z) @ [c]]"
    using False by (rule splitLines_snoc)
  have a: "\<forall>l \<in> set (butlast (splitLines z)). trim l \<noteq> []"
    and b: "trim (last (splitLines z) @ [c]) \<noteq> []"
    using assms(1) unfolding noBlankLine_def s by simp_all
  from b have "trim (last (splitLines z)) \<noteq> []"
    using assms(2) by (auto simp: trim_eq_Nil_iff)
  moreover have "splitLines z = butlast (splitLines z) @ [last (splitLines z)]"
    using ne by simp
  ultimately have "\<forall>l \<in> set (splitLines z). trim l \<noteq> []"
    using a by (metis Un_iff empty_iff empty_set insert_iff list.simps(15) set_append)
  then show ?thesis
    unfolding noBlankLine_def .
qed

lemma noBlankLine_trimEnd: "noBlankLine s \<Longrightarrow> noBlankLine (trimEnd s)"
proof (induction s rule: rev_induct)
  case Nil
  then show ?case by (simp add: trimEnd_def)
next
  case (snoc c z)
  show ?case
  proof (cases "isWhiteSpace c")
    case True
    then have "trimEnd (z @ [c]) = trimEnd z"
      by (simp add: trimEnd_def)
    moreover have "noBlankLine z"
      using snoc.prems True by (rule noBlankLine_drop_last)
    ultimately show ?thesis
      using snoc.IH by simp
  next
    case False
    then have "trimEnd (z @ [c]) = z @ [c]"
      by (simp add: trimEnd_def)
    then show ?thesis
      using snoc.prems by simp
  qed
qed

lemma noBlankLine_trim: "noBlankLine s \<Longrightarrow> noBlankLine (trim s)"
  unfolding trim_def by (intro noBlankLine_trimEnd noBlankLine_trimStart)

subsection \<open>Cleaning up twice\<close>

lemma dropBlankLines_Nil: "dropBlankLines [] = []"
  by (simp add: dropBlankLines_def splitLines_Nil trim_eq_Nil_iff)

lemma dropBlankLines_fixed:
  assumes "noBlankLine y" and "trim y = y"
  shows "dropBlankLines y = y"
proof -
  have "filter (\<lambda>line. trim line \<noteq> []) (splitLines y) = splitLines y"
    using assms(1) unfolding noBlankLine_def by (simp add: filter_id_conv)
  then show ?thesis
    by (simp add: dropBlankLines_def joinLines_splitLines assms(2))
qed

lemma dropBlankLines_idem: "dropBlankLines (dropBlankLines x) = dropBlankLines x"
proof -
  let ?L = "filter (\<lambda>line. trim line \<noteq> []) (splitLines x)"
  have d: "dropBlankLines x = trim (joinLines ?L)"
    by (simp add: dropBlankLines_def)
  show ?thesis
  proof (cases "?L = []")
    case True
    then have "dropBlankLines x = []"
      by (simp add: d trim_eq_Nil_iff)
    then show ?thesis by (simp add: dropBlankLines_Nil)
  next
    case False
    have "\<forall>l \<in> set ?L. CHR 0x0A \<notin> set l"
      by (auto dest: splitLines_no_newline)
    with False have "splitLines (joinLines ?L) = ?L"
      by (rule splitLines_joinLines)
    then have "noBlankLine (joinLines ?L)"
      by (simp add: noBlankLine_def)
    then have "noBlankLine (trim (joinLines ?L))"
      by (rule noBlankLine_trim)
    then show ?thesis
      unfolding d by (rule dropBlankLines_fixed) (rule trim_trim)
  qed
qed

lemma replaceAll_no_match:
  "(\<And>u. suffix u t \<Longrightarrow> m u = None) \<Longrightarrow> replaceAll m t = t"
proof (induction t)
  case Nil
  then show ?case by simp
next
  case (Cons c cs)
  have "m (c # cs) = None"
    by (rule Cons.prems) simp
  moreover have "replaceAll m cs = cs"
    by (rule Cons.IH) (simp add: Cons.prems suffix_ConsI)
  ultimately show ?case by simp
qed

lemma fold_replaceAll_no_match:
  "(\<And>m u. m \<in> set ms \<Longrightarrow> suffix u t \<Longrightarrow> m u = None) \<Longrightarrow> fold replaceAll ms t = t"
  by (induction ms) (simp_all add: replaceAll_no_match)

lemma artifactFree_no_match:
  assumes "artifactFree t" and "m \<in> set (fenceMatch # patternsToRemove)" and "suffix u t"
  shows "m u = None"
  using assms unfolding artifactFree_def list_all_iff in_set_suffixes [symmetric] by blast

lemma cleanupPrompt_artifactFree:
  assumes "artifactFree t"
  shows "cleanupPrompt t = dropBlankLines t"
proof -
  have f: "replaceAll fenceMatch t = t"
    by (rule replaceAll_no_match) (rule artifactFree_no_match [OF assms], simp_all)
  have p: "fold replaceAll patternsToRemove t = t"
    by (rule fold_replaceAll_no_match) (rule artifactFree_no_match [OF assms], simp_all)
  show ?thesis
    by (simp add: cleanupPrompt_def f p dropBlankLines_Nil)
qed

lemma cleanupPrompt_dropBlankLines:
  "dropBlankLines (cleanupPrompt s) = cleanupPrompt s"
  by (simp add: cleanupPrompt_def Let_def dropBlankLines_Nil dropBlankLines_idem)

text \<open>
  Claim C2, as amended. When the cleaned text contains nothing that cleanupPrompt
  removes (at no position does the code-fence expression or one of the ten artifact
  expressions match), cleaning it again gives the same text: the last stage, which
  drops blank lines and trims, does not change its own output.
\<close>

theorem cleanup_idempotent_when_artifact_free:
  "artifactFree (cleanupPrompt s) \<longrightarrow> cleanupPrompt (cleanupPrompt s) = cleanupPrompt s"
  by (simp add: cleanupPrompt_artifactFree cleanupPrompt_dropBlankLines)

theorem cleanup_idempotent_when_artifact_free_witness:
  "cleanupPrompt noisyPrompt = ''let x = 1;\<newline>  hi'' \<and>
   artifactFree (cleanupPrompt noisyPrompt) \<and>
   cleanupPrompt (cleanupPrompt noisyPrompt) = cleanupPrompt noisyPrompt"
proof -
  have a: "cleanupPrompt noisyPrompt = ''let x = 1;\<newline>  hi''"
    by code_simp
  have b: "artifactFree (cleanupPrompt noisyPrompt)"
    by code_simp
  from a b cleanup_idempotent_when_artifact_free [of noisyPrompt] show ?thesis
    by blast
qed

text \<open>
  Claim C2, as stated, fails. The expressions are applied once each, in a fixed order,
  and the timestamp is removed last: in "--2025-01-01 10:00:00-" the removal joins the
  dashes into "---", which only a second pass removes.
\<close>

theorem cleanup_not_idempotent_counterexample:
  "cleanupPrompt ''--2025-01-01 10:00:00-'' = ''---'' \<and>
   cleanupPrompt ''---'' = [] \<and>
   cleanupPrompt (cleanupPrompt ''--2025-01-01 10:00:00-'') \<noteq>
     cleanupPrompt ''--2025-01-01 10:00:00-''"
  by code_simp

end
